theory Spec2Isabelle
  imports Complex_Main
begin

section \<open>The agent processor of bytebot-agent\<close>

text \<open>
  A shallow embedding of \<^verbatim>\<open>packages/bytebot-agent/src/agent/agent.processor.ts\<close>:
  the class \<^verbatim>\<open>AgentProcessor\<close> with its methods \<^verbatim>\<open>generateWithRetry\<close>,
  \<^verbatim>\<open>extractRetryDelay\<close>, \<^verbatim>\<open>sleep\<close> and \<^verbatim>\<open>runIteration\<close>.

  The effects of the class (calls of \<^verbatim>\<open>service.generateMessage\<close>, timed waits, log
  lines) are recorded, in the order in which they happen, in a list of events that every
  operation takes and returns. A rejected promise is a value of a sum type.

  Where the source is typed \<^verbatim>\<open>any\<close> or \<^verbatim>\<open>number\<close>, the embedding fixes these shapes:
  \<^item> a rejection of the provider is \<^verbatim>\<open>undefined\<close>, \<^verbatim>\<open>null\<close>, or an object whose
    \<^verbatim>\<open>code\<close> and \<^verbatim>\<open>status\<close> are absent or integers, whose \<^verbatim>\<open>details\<close> is absent or an
    array of objects, and whose \<^verbatim>\<open>'@type'\<close> and \<^verbatim>\<open>retryDelay\<close> entries are absent or
    strings;
  \<^item> \<^verbatim>\<open>maxRetries\<close>, \<^verbatim>\<open>attempt\<close> and \<^verbatim>\<open>delay\<close> are integers. The number that
    \<^verbatim>\<open>parseInt\<close> returns and its product with 1000 are rounded to the nearest double, as
    JavaScript numbers are, and may be infinite. The quotient \<^verbatim>\<open>delay / 1000\<close> is a
    rational: every \<^verbatim>\<open>delay\<close> that the loop reaches is a multiple of 1000 between 5000
    and 60000, for which the quotient and its product with 1000 are exact in doubles too;
  \<^item> a string is a list of 8-bit code units;
  \<^item> the messages are objects with the fields of the one that \<^verbatim>\<open>runIteration\<close> builds, and
    \<^verbatim>\<open>model\<close> is an object with a \<^verbatim>\<open>name\<close>.
\<close>

subsection \<open>Provider failures\<close>

text \<open>One entry of \<^verbatim>\<open>error.details\<close>: its \<^verbatim>\<open>'@type'\<close> and its \<^verbatim>\<open>retryDelay\<close>.\<close>

record detail =
  at_type :: "string option"
  retryDelay :: "string option"

record provider_error =
  code :: "int option"
  status :: "int option"
  details :: "detail list option"
  message :: "string option"

datatype nullish = Undefined | Null

text \<open>What \<^verbatim>\<open>await this.service.generateMessage(...)\<close> yields: a response, or a
  rejection with an object, or a rejection with \<^verbatim>\<open>undefined\<close> or \<^verbatim>\<open>null\<close>.\<close>

datatype 'r outcome = Resolved 'r | Rejected provider_error | RejectedNullish nullish

text \<open>What a method of the class throws: the provider's error object itself
  (\<^verbatim>\<open>throw error\<close>), a fresh \<^verbatim>\<open>new Error(text)\<close>, or the \<^verbatim>\<open>TypeError\<close> that reading
  a property of \<^verbatim>\<open>undefined\<close> or \<^verbatim>\<open>null\<close> raises.\<close>

datatype thrown = Thrown provider_error | Error string | TypeError

subsection \<open>Numbers\<close>

text \<open>A JavaScript number: a rational (the doubles are among them) or an infinity. NaN is
  not among them; \<^verbatim>\<open>-0\<close> is 0.\<close>

datatype number = Finite rat | PlusInfinity | MinusInfinity

text \<open>The number of binary digits of a natural number.\<close>

fun bit_length :: "nat \<Rightarrow> nat" where
  "bit_length n = (if n = 0 then 0 else Suc (bit_length (n div 2)))"

declare bit_length.simps [simp del]

text \<open>The double nearest to a natural number, ties to the even significand of 53 bits;
  \<open>None\<close> when it is infinite, that is, from \<open>2 ^ 1024\<close> on after rounding.\<close>

definition double_of_nat :: "nat \<Rightarrow> nat option" where
  "double_of_nat n =
     (if n < 2 ^ 53 then Some n
      else
        (let e = bit_length n - 53;
             q = n div 2 ^ e;
             r = n mod 2 ^ e;
             q' = (if 2 ^ e < 2 * r \<or> (2 * r = 2 ^ e \<and> odd q) then q + 1 else q);
             m = q' * 2 ^ e
         in if 2 ^ 1024 \<le> m then None else Some m))"

definition double_of_int :: "int \<Rightarrow> number" where
  "double_of_int i =
     (case double_of_nat (nat \<bar>i\<bar>) of
        None \<Rightarrow> if i < 0 then MinusInfinity else PlusInfinity
      | Some m \<Rightarrow> Finite (if i < 0 then - of_nat m else of_nat m))"

text \<open>\<^verbatim>\<open>x * 1000\<close>. The product of an integer is an integer and is rounded to the nearest
  double. A fraction arises only as \<^verbatim>\<open>delay / 1000\<close> from a \<^verbatim>\<open>delay\<close> that is no multiple of
  1000, which the loop does not reach; its product is left as it is.\<close>

definition times_1000 :: "number \<Rightarrow> number" where
  "times_1000 x =
     (case x of
        Finite q \<Rightarrow>
          if q = of_int \<lfloor>q\<rfloor> then double_of_int (\<lfloor>q\<rfloor> * 1000) else Finite (q * 1000)
      | PlusInfinity \<Rightarrow> PlusInfinity
      | MinusInfinity \<Rightarrow> MinusInfinity)"

subsection \<open>Messages\<close>

text \<open>Modelled from the spec: the enum \<^verbatim>\<open>Role\<close> of \<^verbatim>\<open>../messages/entities\<close>, which is
  not among the sources; the spec gives the roles user, assistant and system.\<close>

datatype Role = USER | ASSISTANT | SYSTEM

text \<open>Modelled from the spec: the enum \<^verbatim>\<open>MessageContentType\<close> of
  \<^verbatim>\<open>../messages/entities\<close>, which is not among the sources; the spec speaks of text
  blocks only, every other member is \<open>Other\<close> with its name.\<close>

datatype MessageContentType = Text | Other string

record content_block =
  block_type :: MessageContentType
  block_text :: string

record message =
  msg_id :: string
  createdAt :: int
  updatedAt :: int
  msg_taskId :: string
  summaryId :: "string option"
  role :: Role
  content :: "content_block list"

subsection \<open>Effects\<close>

text \<open>The five arguments of one \<^verbatim>\<open>generateMessage\<close> call: system prompt, messages,
  model name, the agent flag, and the signal (the identity of the
  \<^verbatim>\<open>AbortController\<close> it belongs to).\<close>

datatype request = Request string "message list" string bool nat

datatype level = LOG | WARN | ERROR

text \<open>The log lines of the class, with the values their templates interpolate.\<close>

datatype log_line =
    Processing string string
  | QuotaExceeded number int int
  | ServerError int rat int int
  | FatalError provider_error
  | Completed string

datatype event =
    Invoked request
  | Slept number
  | Logged level log_line

text \<open>The provider: the outcome of its \<open>n\<close>-th invocation (counted from 0 over the whole
  run) on the given arguments.\<close>

type_synonym 'r service = "nat \<Rightarrow> request \<Rightarrow> 'r outcome"

fun is_Invoked :: "event \<Rightarrow> bool" where
  "is_Invoked (Invoked _) = True"
| "is_Invoked _ = False"

definition invocations :: "event list \<Rightarrow> nat" where
  "invocations tr = length (filter is_Invoked tr)"

text \<open>\<^verbatim>\<open>sleep(ms)\<close>: the method hands \<open>ms\<close> to \<^verbatim>\<open>setTimeout\<close> and waits for the timer.
  What the platform's timer makes of its argument is not part of the class.\<close>

definition sleep :: "number \<Rightarrow> event list \<Rightarrow> event list" where
  "sleep ms tr = tr @ [Slept ms]"

subsection \<open>\<^verbatim>\<open>extractRetryDelay\<close>\<close>

text \<open>\<^verbatim>\<open>str.replace('s', '')\<close>: the first \<^verbatim>\<open>s\<close> is removed.\<close>

fun replace_s :: "string \<Rightarrow> string" where
  "replace_s [] = []"
| "replace_s (c # cs) = (if c = CHR ''s'' then cs else c # replace_s cs)"

text \<open>White space that \<^verbatim>\<open>parseInt\<close> skips, among the code units below 256: TAB, LF, VT,
  FF, CR, SP and NBSP.\<close>

definition isWhiteSpace :: "char \<Rightarrow> bool" where
  "isWhiteSpace c = ((of_char c :: nat) \<in> {9, 10, 11, 12, 13, 32, 160})"

definition isDigit :: "char \<Rightarrow> bool" where
  "isDigit c = (48 \<le> (of_char c :: nat) \<and> (of_char c :: nat) \<le> 57)"

text \<open>The value of a string of decimal digits, most significant first.\<close>

definition digits_value :: "string \<Rightarrow> nat" where
  "digits_value ds = foldl (\<lambda>acc c. 10 * acc + (of_char c - 48)) 0 ds"

text \<open>\<^verbatim>\<open>parseInt(s, 10)\<close>: leading white space is skipped, one sign is read, then the
  longest run of decimal digits; the result is the double nearest to their signed value.
  \<open>None\<close> is NaN (no digit there).\<close>

definition parseInt10 :: "string \<Rightarrow> number option" where
  "parseInt10 s =
     (let t = dropWhile isWhiteSpace s;
          neg = (t \<noteq> [] \<and> hd t = CHR ''-'');
          u = (if t \<noteq> [] \<and> (hd t = CHR ''+'' \<or> hd t = CHR ''-'') then tl t else t);
          z = takeWhile isDigit u
      in if z = [] then None
         else Some (double_of_int ((if neg then - 1 else 1) * int (digits_value z))))"

definition RetryInfo_type :: string where
  "RetryInfo_type = ''type.googleapis.com/google.rpc.RetryInfo''"

text \<open>\<open>None\<close> is the \<^verbatim>\<open>null\<close> the method returns. An empty string is falsy, as an
  absent field is.\<close>

definition extractRetryDelay :: "provider_error \<Rightarrow> number option" where
  "extractRetryDelay error =
     (case details error of
        None \<Rightarrow> None
      | Some ds \<Rightarrow>
          (case find (\<lambda>d. at_type d = Some RetryInfo_type) ds of
             None \<Rightarrow> None
           | Some retryInfo \<Rightarrow>
               (case retryDelay retryInfo of
                  None \<Rightarrow> None
                | Some s \<Rightarrow> if s = [] then None else parseInt10 (replace_s s))))"

subsection \<open>\<^verbatim>\<open>generateWithRetry\<close>\<close>

text \<open>\<^verbatim>\<open>error?.code || error?.status\<close>: the status where the code is absent or 0.\<close>

definition error_code :: "provider_error \<Rightarrow> int option" where
  "error_code error =
     (case code error of
        None \<Rightarrow> status error
      | Some c \<Rightarrow> if c = 0 then status error else Some c)"

text \<open>\<^verbatim>\<open>this.extractRetryDelay(error) || delay / 1000\<close>, in seconds: \<^verbatim>\<open>null\<close> and 0 are
  falsy.\<close>

definition retry_seconds :: "provider_error \<Rightarrow> int \<Rightarrow> number" where
  "retry_seconds error delay =
     (case extractRetryDelay error of
        None \<Rightarrow> Finite (of_int delay / 1000)
      | Some seconds \<Rightarrow>
          if seconds = Finite 0 then Finite (of_int delay / 1000) else seconds)"

text \<open>One turn of the \<^verbatim>\<open>for\<close> loop, the \<^verbatim>\<open>try\<close> with its \<^verbatim>\<open>catch\<close>, at the given
  values of \<^verbatim>\<open>attempt\<close> and \<^verbatim>\<open>delay\<close>: \<open>Inl\<close> is \<^verbatim>\<open>continue\<close> with the new
  \<^verbatim>\<open>delay\<close>, \<open>Inr\<close> leaves the method (\<^verbatim>\<open>return\<close> or \<^verbatim>\<open>throw\<close>). For a rejection
  with \<^verbatim>\<open>undefined\<close> or \<^verbatim>\<open>null\<close>, \<^verbatim>\<open>error?.code || error?.status\<close> is \<^verbatim>\<open>undefined\<close>,
  neither test of the code holds, and \<^verbatim>\<open>error.message\<close> in the text of the last log line
  raises a \<^verbatim>\<open>TypeError\<close> before anything is logged or thrown.\<close>

definition attempt_body ::
  "'r service \<Rightarrow> request \<Rightarrow> int \<Rightarrow> int \<Rightarrow> int \<Rightarrow> event list
    \<Rightarrow> (int \<times> event list) + ((thrown + 'r) \<times> event list)" where
  "attempt_body service req maxRetries attempt delay tr =
     (case service (invocations tr) req of
        Resolved response \<Rightarrow> Inr (Inr response, tr @ [Invoked req])
      | Rejected error \<Rightarrow>
          (let tr1 = tr @ [Invoked req];
               ec = error_code error;
               fatal = Inr (Inl (Thrown error), tr1 @ [Logged ERROR (FatalError error)])
           in
           if ec = Some 429 then
             (let seconds = retry_seconds error delay;
                  tr2 = tr1 @ [Logged WARN (QuotaExceeded seconds attempt maxRetries)]
              in Inl (min (delay * 2) 60000, sleep (times_1000 seconds) tr2))
           else
             (case ec of
                None \<Rightarrow> fatal
              | Some c \<Rightarrow>
                  if 500 \<le> c \<and> c < 600 then
                    (let tr2 = tr1 @ [Logged WARN
                           (ServerError c (of_int delay / 1000) attempt maxRetries)]
                     in Inl (min (delay * 2) 60000, sleep (Finite (of_int delay)) tr2))
                  else fatal))
      | RejectedNullish error \<Rightarrow> Inr (Inl TypeError, tr @ [Invoked req]))"

text \<open>The \<^verbatim>\<open>for\<close> loop from the given \<^verbatim>\<open>attempt\<close> on, and the \<^verbatim>\<open>throw\<close> after it.\<close>

function retry_loop ::
  "'r service \<Rightarrow> request \<Rightarrow> int \<Rightarrow> int \<Rightarrow> int \<Rightarrow> event list
    \<Rightarrow> (thrown + 'r) \<times> event list" where
  "retry_loop service req maxRetries attempt delay tr =
     (if attempt \<le> maxRetries then
        (case attempt_body service req maxRetries attempt delay tr of
           Inl (delay', tr') \<Rightarrow> retry_loop service req maxRetries (attempt + 1) delay' tr'
         | Inr res \<Rightarrow> res)
      else (Inl (Error ''Max retries reached for LLM call''), tr))"
  by pat_completeness auto
termination
  by (relation "measure (\<lambda>(service, req, maxRetries, attempt, delay, tr).
        nat (maxRetries + 1 - attempt))") auto

definition generateWithRetry ::
  "'r service \<Rightarrow> string \<Rightarrow> message list \<Rightarrow> string \<Rightarrow> bool \<Rightarrow> nat \<Rightarrow> int
    \<Rightarrow> event list \<Rightarrow> (thrown + 'r) \<times> event list" where
  "generateWithRetry service systemPrompt messages modelName isAgent signal maxRetries tr =
     retry_loop service (Request systemPrompt messages modelName isAgent signal)
       maxRetries 1 5000 tr"

subsection \<open>\<^verbatim>\<open>runIteration\<close>\<close>

text \<open>An instance of the class. Its field \<^verbatim>\<open>abortController\<close> holds the identity of the
  \<^verbatim>\<open>AbortController\<close> that the field initialiser created; \<^verbatim>\<open>abortController.signal\<close>
  is identified with it. The \<^verbatim>\<open>service\<close> of the instance is the provider that the
  operations take as their first argument.\<close>

record AgentProcessor =
  abortController :: nat

text \<open>The constructor, given the identity of the freshly created controller.\<close>

definition new_AgentProcessor :: "nat \<Rightarrow> AgentProcessor" where
  "new_AgentProcessor fresh = \<lparr>abortController = fresh\<rparr>"

text \<open>The \<^verbatim>\<open>model\<close> argument, of which only \<^verbatim>\<open>model.name\<close> is read.\<close>

record model =
  name :: string

text \<open>The two constants imported from \<^verbatim>\<open>./prompts\<close>, which is not among the sources:
  they are parameters.\<close>

record prompts =
  AGENT_SYSTEM_PROMPT :: string
  SUMMARIZATION_SYSTEM_PROMPT :: string

definition summary_request_text :: string where
  "summary_request_text =
     ''Respond with a summary of the messages above. Do not include any additional information.''"

text \<open>The object literal that \<^verbatim>\<open>runIteration\<close> appends; \<open>dates\<close> are the values of its
  two \<^verbatim>\<open>new Date()\<close>.\<close>

definition summary_message :: "int \<times> int \<Rightarrow> string \<Rightarrow> message" where
  "summary_message dates taskId =
     \<lparr>msg_id = [],
      createdAt = fst dates,
      updatedAt = snd dates,
      msg_taskId = taskId,
      summaryId = None,
      role = USER,
      content = [\<lparr>block_type = Text, block_text = summary_request_text\<rparr>]\<rparr>"

text \<open>\<^verbatim>\<open>runIteration\<close>; both calls of \<^verbatim>\<open>generateWithRetry\<close> leave \<^verbatim>\<open>maxRetries\<close> at its
  default 10. A rejection of either call leaves the method at once.\<close>

definition runIteration ::
  "'r service \<Rightarrow> prompts \<Rightarrow> AgentProcessor \<Rightarrow> int \<times> int \<Rightarrow> string \<Rightarrow> message list
    \<Rightarrow> model \<Rightarrow> bool \<Rightarrow> event list \<Rightarrow> (thrown + unit) \<times> event list" where
  "runIteration service ps this dates taskId messages m shouldSummarize tr =
     (let tr0 = tr @ [Logged LOG (Processing taskId (name m))] in
      case generateWithRetry service (AGENT_SYSTEM_PROMPT ps) messages (name m) True
             (abortController this) 10 tr0 of
        (Inl err, tr1) \<Rightarrow> (Inl err, tr1)
      | (Inr agentResponse, tr1) \<Rightarrow>
          if shouldSummarize then
            (let summaryMessages = messages @ [summary_message dates taskId] in
             case generateWithRetry service (SUMMARIZATION_SYSTEM_PROMPT ps) summaryMessages
                    (name m) False (abortController this) 10 tr1 of
               (Inl err, tr2) \<Rightarrow> (Inl err, tr2)
             | (Inr summaryResponse, tr2) \<Rightarrow>
                 (Inr (), tr2 @ [Logged LOG (Completed taskId)]))
          else (Inr (), tr1 @ [Logged LOG (Completed taskId)]))"

text \<open>A caller that runs \<^verbatim>\<open>runIteration\<close> on one instance several times, one call after
  the other, whatever each call returns. One entry of the list holds the arguments of one
  call and the values of its \<^verbatim>\<open>new Date()\<close>.\<close>

record iteration =
  it_dates :: "int \<times> int"
  it_taskId :: string
  it_messages :: "message list"
  it_model :: model
  it_shouldSummarize :: bool

fun runIterations ::
  "'r service \<Rightarrow> prompts \<Rightarrow> AgentProcessor \<Rightarrow> iteration list \<Rightarrow> event list \<Rightarrow> event list"
  where
  "runIterations service ps this [] tr = tr"
| "runIterations service ps this (x # xs) tr =
     runIterations service ps this xs
       (snd (runIteration service ps this (it_dates x) (it_taskId x) (it_messages x)
               (it_model x) (it_shouldSummarize x) tr))"

section \<open>Vocabulary of the specification\<close>

text \<open>The classification of a failure, read off the branches of the \<^verbatim>\<open>catch\<close> block in
  their order.\<close>

datatype classification = RateLimited | Transient | Fatal

definition classify :: "provider_error \<Rightarrow> classification" where
  "classify error =
     (case error_code error of
        None \<Rightarrow> Fatal
      | Some c \<Rightarrow> if c = 429 then RateLimited
                  else if 500 \<le> c \<and> c < 600 then Transient else Fatal)"

definition retryable :: "provider_error \<Rightarrow> bool" where
  "retryable error = (classify error = RateLimited \<or> classify error = Transient)"

text \<open>The \<open>n\<close>-th invocation of the provider is rejected with a retryable failure.\<close>

definition rejects_retryably :: "'r service \<Rightarrow> request \<Rightarrow> nat \<Rightarrow> bool" where
  "rejects_retryably service req n =
     (case service n req of
        Resolved _ \<Rightarrow> False
      | Rejected error \<Rightarrow> retryable error
      | RejectedNullish _ \<Rightarrow> False)"

text \<open>The kind of each event, the timed waits and the provider's requests of a trace.\<close>

datatype kind = Call | Wait | Note

fun kind_of :: "event \<Rightarrow> kind" where
  "kind_of (Invoked _) = Call"
| "kind_of (Slept _) = Wait"
| "kind_of (Logged _ _) = Note"

definition kinds :: "event list \<Rightarrow> kind list" where
  "kinds tr = map kind_of tr"

fun waits :: "event list \<Rightarrow> number list" where
  "waits [] = []"
| "waits (Slept ms # tr) = ms # waits tr"
| "waits (_ # tr) = waits tr"

fun requests :: "event list \<Rightarrow> request list" where
  "requests [] = []"
| "requests (Invoked req # tr) = req # requests tr"
| "requests (_ # tr) = requests tr"

fun signal_of :: "request \<Rightarrow> nat" where
  "signal_of (Request systemPrompt messages modelName isAgent signal) = signal"

fun messages_of :: "request \<Rightarrow> message list" where
  "messages_of (Request systemPrompt messages modelName isAgent signal) = messages"

text \<open>The milliseconds waited after a retryable failure at the current \<^verbatim>\<open>delay\<close>, and
  the update of \<^verbatim>\<open>delay\<close>.\<close>

definition wait_ms :: "provider_error \<Rightarrow> int \<Rightarrow> number" where
  "wait_ms error delay =
     (if classify error = RateLimited then times_1000 (retry_seconds error delay)
      else Finite (of_int delay))"

definition next_delay :: "int \<Rightarrow> int" where
  "next_delay delay = min (delay * 2) 60000"

text \<open>The values of \<^verbatim>\<open>attempt\<close>, \<^verbatim>\<open>delay\<close> and the trace when the loop condition is
  tested for the \<open>(k+1)\<close>-th time, starting from the given ones; \<open>None\<close> when the method
  was left before.\<close>

fun loop_state ::
  "'r service \<Rightarrow> request \<Rightarrow> int \<Rightarrow> nat \<Rightarrow> int \<Rightarrow> int \<Rightarrow> event list
    \<Rightarrow> (int \<times> int \<times> event list) option" where
  "loop_state service req maxRetries 0 attempt delay tr = Some (attempt, delay, tr)"
| "loop_state service req maxRetries (Suc k) attempt delay tr =
     (if attempt \<le> maxRetries then
        (case attempt_body service req maxRetries attempt delay tr of
           Inl (delay', tr') \<Rightarrow> loop_state service req maxRetries k (attempt + 1) delay' tr'
         | Inr res \<Rightarrow> None)
      else None)"

text \<open>The \<^verbatim>\<open>retryDelay\<close> that \<^verbatim>\<open>extractRetryDelay\<close> reads: the one of the first detail
  entry of type RetryInfo.\<close>

definition retry_delay_field :: "provider_error \<Rightarrow> string option" where
  "retry_delay_field error =
     (case details error of
        None \<Rightarrow> None
      | Some ds \<Rightarrow>
          (case find (\<lambda>d. at_type d = Some RetryInfo_type) ds of
             None \<Rightarrow> None
           | Some retryInfo \<Rightarrow> retryDelay retryInfo))"

text \<open>The failure has no retry delay that the method uses: the field is absent or empty, or
  \<^verbatim>\<open>parseInt\<close> reads no integer in it, or reads 0.\<close>

definition no_retry_delay :: "provider_error \<Rightarrow> bool" where
  "no_retry_delay error =
     (case retry_delay_field error of
        None \<Rightarrow> True
      | Some s \<Rightarrow>
          s = [] \<or> parseInt10 (replace_s s) = None \<or> parseInt10 (replace_s s) = Some (Finite 0))"

text \<open>The full backoff delay in milliseconds after \<open>k\<close> earlier failures.\<close>

definition backoff_ms :: "nat \<Rightarrow> int" where
  "backoff_ms k = min (5000 * 2 ^ k) 60000"

text \<open>A well-formed retry delay: decimal digits, at least one, and a final \<^verbatim>\<open>s\<close>.\<close>

definition well_formed_delay :: "string \<Rightarrow> bool" where
  "well_formed_delay s =
     (s \<noteq> [] \<and> last s = CHR ''s'' \<and> butlast s \<noteq> [] \<and> list_all isDigit (butlast s))"

text \<open>The outcome of a run of the loop, whatever the provider does.\<close>

definition loop_outcome ::
  "'r service \<Rightarrow> request \<Rightarrow> int \<Rightarrow> int \<Rightarrow> event list \<Rightarrow> (thrown + 'r) \<times> event list \<Rightarrow> bool"
  where
  "loop_outcome service req maxRetries attempt tr out =
     (\<exists>tr' n. snd out = tr @ tr' \<and> requests tr' = replicate n req
        \<and> int n \<le> max 0 (maxRetries + 1 - attempt)
        \<and> (attempt \<le> maxRetries \<longrightarrow> 1 \<le> n)
        \<and> (attempt \<le> maxRetries \<longrightarrow> \<not> rejects_retryably service req (invocations tr) \<longrightarrow> n = 1)
        \<and> (case fst out of
              Inr r \<Rightarrow> \<exists>i. service i req = Resolved r
            | Inl (Thrown e) \<Rightarrow> classify e = Fatal \<and> (\<exists>i. service i req = Rejected e)
            | Inl (Error text) \<Rightarrow> text = ''Max retries reached for LLM call''
            | Inl TypeError \<Rightarrow> \<exists>i u. service i req = RejectedNullish u))"

text \<open>The requests of the two calls of \<^verbatim>\<open>generateWithRetry\<close> in \<^verbatim>\<open>runIteration\<close>, and
  the first of these calls.\<close>

definition primary_request :: "prompts \<Rightarrow> AgentProcessor \<Rightarrow> message list \<Rightarrow> model \<Rightarrow> request"
  where
  "primary_request ps this messages m =
     Request (AGENT_SYSTEM_PROMPT ps) messages (name m) True (abortController this)"

definition summary_request ::
  "prompts \<Rightarrow> AgentProcessor \<Rightarrow> int \<times> int \<Rightarrow> string \<Rightarrow> message list \<Rightarrow> model \<Rightarrow> request"
  where
  "summary_request ps this dates taskId messages m =
     Request (SUMMARIZATION_SYSTEM_PROMPT ps) (messages @ [summary_message dates taskId])
       (name m) False (abortController this)"

definition primary_call ::
  "'r service \<Rightarrow> prompts \<Rightarrow> AgentProcessor \<Rightarrow> string \<Rightarrow> message list \<Rightarrow> model
    \<Rightarrow> event list \<Rightarrow> (thrown + 'r) \<times> event list" where
  "primary_call service ps this taskId messages m tr =
     generateWithRetry service (AGENT_SYSTEM_PROMPT ps) messages (name m) True
       (abortController this) 10 (tr @ [Logged LOG (Processing taskId (name m))])"

definition summary_call ::
  "'r service \<Rightarrow> prompts \<Rightarrow> AgentProcessor \<Rightarrow> int \<times> int \<Rightarrow> string \<Rightarrow> message list
    \<Rightarrow> model \<Rightarrow> event list \<Rightarrow> (thrown + 'r) \<times> event list" where
  "summary_call service ps this dates taskId messages m tr1 =
     generateWithRetry service (SUMMARIZATION_SYSTEM_PROMPT ps)
       (messages @ [summary_message dates taskId]) (name m) False (abortController this) 10 tr1"

section \<open>Sample inputs\<close>

text \<open>A provider that answers its first invocations from a script and every later one
  with a final outcome.\<close>

definition scripted :: "'r outcome list \<Rightarrow> 'r outcome \<Rightarrow> 'r service" where
  "scripted script final n req = (if n < length script then script ! n else final)"

text \<open>A rate-limit failure without retry metadata, a server fault that only has a
  \<^verbatim>\<open>status\<close>, and a failure of authorisation.\<close>

definition e429 :: provider_error where
  "e429 = \<lparr>code = Some 429, status = None, details = None, message = Some ''quota''\<rparr>"

definition e500 :: provider_error where
  "e500 = \<lparr>code = None, status = Some 500, details = None, message = None\<rparr>"

definition e401 :: provider_error where
  "e401 = \<lparr>code = Some 401, status = Some 401, details = None, message = Some ''key''\<rparr>"

text \<open>A rate-limit failure whose second detail entry is a RetryInfo with the given
  \<^verbatim>\<open>retryDelay\<close>.\<close>

definition e429_retry :: "string \<Rightarrow> provider_error" where
  "e429_retry s =
     \<lparr>code = Some 429, status = None,
      details = Some [\<lparr>at_type = Some ''type.googleapis.com/google.rpc.Help'', retryDelay = Some ''9s''\<rparr>,
                      \<lparr>at_type = Some RetryInfo_type, retryDelay = Some s\<rparr>],
      message = None\<rparr>"

text \<open>Prompts, an instance, a model and a stored message.\<close>

definition ps0 :: prompts where
  "ps0 = \<lparr>AGENT_SYSTEM_PROMPT = ''You are an agent.'',
          SUMMARIZATION_SYSTEM_PROMPT = ''You summarise.''\<rparr>"

definition this0 :: AgentProcessor where
  "this0 = new_AgentProcessor 5"

definition m0 :: model where
  "m0 = \<lparr>name = ''m''\<rparr>"

definition msg0 :: message where
  "msg0 = \<lparr>msg_id = ''1'', createdAt = 0, updatedAt = 0, msg_taskId = ''t'', summaryId = None,
           role = ASSISTANT, content = [\<lparr>block_type = Text, block_text = ''done''\<rparr>]\<rparr>"

text \<open>Two calls of \<^verbatim>\<open>runIteration\<close>, the first with a summary.\<close>

definition it1 :: iteration where
  "it1 = \<lparr>it_dates = (1, 2), it_taskId = ''t'', it_messages = [msg0], it_model = m0,
          it_shouldSummarize = True\<rparr>"

definition it2 :: iteration where
  "it2 = \<lparr>it_dates = (3, 4), it_taskId = ''u'', it_messages = [], it_model = m0,
          it_shouldSummarize = False\<rparr>"

text \<open>A history of aborts: the controller \<open>c\<close> is aborted from the \<open>n\<close>-th invocation of the
  provider on, and no other controller ever.\<close>

definition aborted_from :: "nat \<Rightarrow> nat \<Rightarrow> nat \<Rightarrow> nat set" where
  "aborted_from n c i = (if n \<le> i then {c} else {})"

section \<open>Traces\<close>

lemma kinds_append [simp]: "kinds (a @ b) = kinds a @ kinds b"
  by (simp add: kinds_def)

lemma kinds_simps [simp]:
  "kinds [] = []"
  "kinds (ev # tr) = kind_of ev # kinds tr"
  by (simp_all add: kinds_def)

lemma waits_append [simp]: "waits (a @ b) = waits a @ waits b"
  by (induction a rule: waits.induct) simp_all

lemma requests_append [simp]: "requests (a @ b) = requests a @ requests b"
  by (induction a rule: requests.induct) simp_all

lemma invocations_append [simp]: "invocations (a @ b) = invocations a + invocations b"
  by (simp add: invocations_def)

lemma invocations_simps [simp]:
  "invocations [] = 0"
  "invocations (Invoked req # tr) = Suc (invocations tr)"
  "invocations (Slept ms # tr) = invocations tr"
  "invocations (Logged lv l # tr) = invocations tr"
  by (simp_all add: invocations_def)

lemma invocations_requests: "invocations tr = length (requests tr)"
  by (induction tr rule: requests.induct) simp_all

lemma waits_kinds: "length (waits tr) = length (filter (\<lambda>k. k = Wait) (kinds tr))"
  by (induction tr rule: waits.induct) simp_all

lemma requests_kinds: "length (requests tr) = length (filter (\<lambda>k. k = Call) (kinds tr))"
  by (induction tr rule: requests.induct) simp_all

lemma filter_concat_replicate:
  "filter P (concat (replicate n xs)) = concat (replicate n (filter P xs))"
  by (induction n) simp_all

lemma length_concat_replicate: "length (concat (replicate n xs)) = n * length xs"
  by (induction n) simp_all

section \<open>One turn of the loop\<close>

lemma body_resolved:
  "service (invocations tr) req = Resolved r \<Longrightarrow>
   attempt_body service req maxRetries attempt delay tr = Inr (Inr r, tr @ [Invoked req])"
  by (simp add: attempt_body_def)

lemma body_fatal:
  "service (invocations tr) req = Rejected e \<Longrightarrow> classify e = Fatal \<Longrightarrow>
   attempt_body service req maxRetries attempt delay tr =
     Inr (Inl (Thrown e), tr @ [Invoked req, Logged ERROR (FatalError e)])"
  by (auto simp add: attempt_body_def classify_def Let_def split: option.splits if_splits)

lemma body_retryable:
  "service (invocations tr) req = Rejected e \<Longrightarrow> retryable e \<Longrightarrow>
   \<exists>l. attempt_body service req maxRetries attempt delay tr =
     Inl (next_delay delay, tr @ [Invoked req, Logged WARN l, Slept (wait_ms e delay)])"
  by (auto simp add: attempt_body_def classify_def retryable_def wait_ms_def next_delay_def
        sleep_def Let_def split: option.splits if_splits)


lemma body_nullish:
  "service (invocations tr) req = RejectedNullish u \<Longrightarrow>
   attempt_body service req maxRetries attempt delay tr = Inr (Inl TypeError, tr @ [Invoked req])"
  by (simp add: attempt_body_def)

section \<open>The loop\<close>

declare retry_loop.simps [simp del]

lemma retry_loop_exhausted:
  "\<not> attempt \<le> maxRetries \<Longrightarrow>
   retry_loop service req maxRetries attempt delay tr =
     (Inl (Error ''Max retries reached for LLM call''), tr)"
  by (subst retry_loop.simps) simp

lemma retry_loop_continue:
  "attempt \<le> maxRetries \<Longrightarrow>
   attempt_body service req maxRetries attempt delay tr = Inl (delay', tr') \<Longrightarrow>
   retry_loop service req maxRetries attempt delay tr =
     retry_loop service req maxRetries (attempt + 1) delay' tr'"
  by (subst retry_loop.simps) simp

lemma retry_loop_leave:
  "attempt \<le> maxRetries \<Longrightarrow>
   attempt_body service req maxRetries attempt delay tr = Inr res \<Longrightarrow>
   retry_loop service req maxRetries attempt delay tr = res"
  by (subst retry_loop.simps) simp

text \<open>\<open>k\<close> retryable failures in a row, with attempts left for each of them: the loop
  calls, logs and waits \<open>k\<close> times and goes on with \<^verbatim>\<open>attempt\<close> raised by \<open>k\<close> and
  \<^verbatim>\<open>delay\<close> updated \<open>k\<close> times.\<close>

lemma retry_loop_failures:
  "\<forall>i<k. rejects_retryably service req (invocations tr + i) \<Longrightarrow>
   attempt + int k \<le> maxRetries + 1 \<Longrightarrow>
   \<exists>tr'. retry_loop service req maxRetries attempt delay tr =
           retry_loop service req maxRetries (attempt + int k) ((next_delay ^^ k) delay)
             (tr @ tr')
       \<and> kinds tr' = concat (replicate k [Call, Note, Wait])
       \<and> requests tr' = replicate k req"
proof (induction k arbitrary: attempt delay tr)
  case 0
  show ?case by (rule exI [of _ "[]"]) simp
next
  case (Suc k)
  from Suc.prems(1) have "rejects_retryably service req (invocations tr)"
    by (metis add.right_neutral zero_less_Suc)
  then obtain e where e: "service (invocations tr) req = Rejected e" "retryable e"
    by (auto simp: rejects_retryably_def split: outcome.splits)
  have "\<exists>l. attempt_body service req maxRetries attempt delay tr =
       Inl (next_delay delay, tr @ [Invoked req, Logged WARN l, Slept (wait_ms e delay)])"
    using e by (rule body_retryable)
  then obtain l where
    body: "attempt_body service req maxRetries attempt delay tr =
       Inl (next_delay delay, tr @ [Invoked req, Logged WARN l, Slept (wait_ms e delay)])"
    by blast
  let ?tr1 = "tr @ [Invoked req, Logged WARN l, Slept (wait_ms e delay)]"
  have le: "attempt \<le> maxRetries" using Suc.prems(2) by simp
  have step: "retry_loop service req maxRetries attempt delay tr =
      retry_loop service req maxRetries (attempt + 1) (next_delay delay) ?tr1"
    by (rule retry_loop_continue [OF le body])
  have rest: "\<forall>i<k. rejects_retryably service req (invocations ?tr1 + i)"
    using Suc.prems(1) by auto
  have bound: "attempt + 1 + int k \<le> maxRetries + 1" using Suc.prems(2) by simp
  from Suc.IH [OF rest bound, of "next_delay delay"] obtain tr' where
    ih: "retry_loop service req maxRetries (attempt + 1) (next_delay delay) ?tr1 =
         retry_loop service req maxRetries (attempt + 1 + int k)
           ((next_delay ^^ k) (next_delay delay)) (?tr1 @ tr')"
      "kinds tr' = concat (replicate k [Call, Note, Wait])"
      "requests tr' = replicate k req"
    by blast
  let ?new = "[Invoked req, Logged WARN l, Slept (wait_ms e delay)] @ tr'"
  have "retry_loop service req maxRetries attempt delay tr =
        retry_loop service req maxRetries (attempt + int (Suc k))
          ((next_delay ^^ Suc k) delay) (tr @ ?new)"
    using step ih(1) by (simp add: funpow_swap1 add.assoc)
  moreover have "kinds ?new = concat (replicate (Suc k) [Call, Note, Wait])"
    using ih(2) by simp
  moreover have "requests ?new = replicate (Suc k) req"
    using ih(3) by simp
  ultimately show ?case by blast
qed

lemma retry_loop_then_resolved:
  assumes fails: "\<forall>i<k. rejects_retryably service req (invocations tr + i)"
    and bound: "attempt + int k \<le> maxRetries"
    and ok: "service (invocations tr + k) req = Resolved r"
  shows "\<exists>tr'. retry_loop service req maxRetries attempt delay tr = (Inr r, tr @ tr')
       \<and> kinds tr' = concat (replicate k [Call, Note, Wait]) @ [Call]
       \<and> requests tr' = replicate (Suc k) req"
proof -
  from bound have "attempt + int k \<le> maxRetries + 1" by simp
  from retry_loop_failures [OF fails this, of delay] obtain tr1 where
    run: "retry_loop service req maxRetries attempt delay tr =
          retry_loop service req maxRetries (attempt + int k) ((next_delay ^^ k) delay) (tr @ tr1)"
    and k1: "kinds tr1 = concat (replicate k [Call, Note, Wait])"
    and r1: "requests tr1 = replicate k req"
    by blast
  have "invocations (tr @ tr1) = invocations tr + k"
    using r1 by (simp add: invocations_requests)
  with ok have "service (invocations (tr @ tr1)) req = Resolved r" by simp
  then have "attempt_body service req maxRetries (attempt + int k) ((next_delay ^^ k) delay)
      (tr @ tr1) = Inr (Inr r, (tr @ tr1) @ [Invoked req])"
    by (rule body_resolved)
  with bound have "retry_loop service req maxRetries (attempt + int k)
      ((next_delay ^^ k) delay) (tr @ tr1) = (Inr r, (tr @ tr1) @ [Invoked req])"
    by (rule retry_loop_leave)
  with run have "retry_loop service req maxRetries attempt delay tr =
      (Inr r, tr @ (tr1 @ [Invoked req]))" by simp
  moreover have "kinds (tr1 @ [Invoked req]) = concat (replicate k [Call, Note, Wait]) @ [Call]"
    using k1 by simp
  moreover have "requests (tr1 @ [Invoked req]) = replicate (Suc k) req"
    using r1 by (simp add: replicate_append_same)
  ultimately show ?thesis by blast
qed

lemma retry_loop_then_fatal:
  assumes fails: "\<forall>i<k. rejects_retryably service req (invocations tr + i)"
    and bound: "attempt + int k \<le> maxRetries"
    and rej: "service (invocations tr + k) req = Rejected e"
    and fatal: "classify e = Fatal"
  shows "\<exists>tr'. retry_loop service req maxRetries attempt delay tr = (Inl (Thrown e), tr @ tr')
       \<and> kinds tr' = concat (replicate k [Call, Note, Wait]) @ [Call, Note]
       \<and> requests tr' = replicate (Suc k) req"
proof -
  from bound have "attempt + int k \<le> maxRetries + 1" by simp
  from retry_loop_failures [OF fails this, of delay] obtain tr1 where
    run: "retry_loop service req maxRetries attempt delay tr =
          retry_loop service req maxRetries (attempt + int k) ((next_delay ^^ k) delay) (tr @ tr1)"
    and k1: "kinds tr1 = concat (replicate k [Call, Note, Wait])"
    and r1: "requests tr1 = replicate k req"
    by blast
  let ?end = "[Invoked req, Logged ERROR (FatalError e)]"
  have "invocations (tr @ tr1) = invocations tr + k"
    using r1 by (simp add: invocations_requests)
  with rej have "service (invocations (tr @ tr1)) req = Rejected e" by simp
  then have "attempt_body service req maxRetries (attempt + int k) ((next_delay ^^ k) delay)
      (tr @ tr1) = Inr (Inl (Thrown e), (tr @ tr1) @ ?end)"
    using fatal by (rule body_fatal)
  with bound have "retry_loop service req maxRetries (attempt + int k)
      ((next_delay ^^ k) delay) (tr @ tr1) = (Inl (Thrown e), (tr @ tr1) @ ?end)"
    by (rule retry_loop_leave)
  with run have "retry_loop service req maxRetries attempt delay tr =
      (Inl (Thrown e), tr @ (tr1 @ ?end))" by simp
  moreover have "kinds (tr1 @ ?end) = concat (replicate k [Call, Note, Wait]) @ [Call, Note]"
    using k1 by simp
  moreover have "requests (tr1 @ ?end) = replicate (Suc k) req"
    using r1 by (simp add: replicate_append_same)
  ultimately show ?thesis by blast
qed

lemma retry_loop_all_fail:
  assumes fails: "\<forall>i<k. rejects_retryably service req (invocations tr + i)"
    and bound: "attempt + int k = maxRetries + 1"
  shows "\<exists>tr'. retry_loop service req maxRetries attempt delay tr =
           (Inl (Error ''Max retries reached for LLM call''), tr @ tr')
       \<and> kinds tr' = concat (replicate k [Call, Note, Wait])
       \<and> requests tr' = replicate k req"
proof -
  from bound have "attempt + int k \<le> maxRetries + 1" by simp
  from retry_loop_failures [OF fails this, of delay] obtain tr1 where
    run: "retry_loop service req maxRetries attempt delay tr =
          retry_loop service req maxRetries (attempt + int k) ((next_delay ^^ k) delay) (tr @ tr1)"
    and k1: "kinds tr1 = concat (replicate k [Call, Note, Wait])"
    and r1: "requests tr1 = replicate k req"
    by blast
  from bound have "\<not> attempt + int k \<le> maxRetries" by simp
  then have "retry_loop service req maxRetries (attempt + int k) ((next_delay ^^ k) delay)
      (tr @ tr1) = (Inl (Error ''Max retries reached for LLM call''), tr @ tr1)"
    by (rule retry_loop_exhausted)
  with run k1 r1 show ?thesis by auto
qed

lemma waits_of_rounds:
  "kinds tr = concat (replicate k [Call, Note, Wait]) @ rest \<Longrightarrow> Wait \<notin> set rest \<Longrightarrow>
   length (waits tr) = k"
proof -
  assume k: "kinds tr = concat (replicate k [Call, Note, Wait]) @ rest"
    and rest: "Wait \<notin> set rest"
  from rest have "filter (\<lambda>k. k = Wait) rest = []"
    by (auto simp: filter_empty_conv)
  with k show ?thesis
    by (simp add: waits_kinds filter_concat_replicate length_concat_replicate)
qed

section \<open>The loop variables\<close>

lemma classify_Fatal_iff:
  "classify e = Fatal \<longleftrightarrow>
   (\<forall>c. error_code e = Some c \<longrightarrow> c \<noteq> 429 \<and> \<not> (500 \<le> c \<and> c < 600))"
  by (auto simp: classify_def split: option.splits)

lemma concat_replicate_snoc: "concat (replicate n xs) @ xs = concat (replicate (Suc n) xs)"
  by (induction n) simp_all

lemma body_continue:
  "attempt_body service req maxRetries attempt delay tr = Inl (delay', tr') \<Longrightarrow>
   delay' = next_delay delay \<and> rejects_retryably service req (invocations tr)"
  by (auto simp add: attempt_body_def rejects_retryably_def retryable_def classify_def
        next_delay_def Let_def split: outcome.splits option.splits if_splits)


lemma next_delay_pow: "(next_delay ^^ k) 5000 = min (5000 * 2 ^ k) 60000"
  by (induction k) (simp_all add: next_delay_def)




lemma loop_state_stop:
  "\<not> attempt \<le> maxRetries \<or> attempt_body service req maxRetries attempt delay tr = Inr res \<Longrightarrow>
   loop_state service req maxRetries (Suc k) attempt delay tr = None"
  by auto


section \<open>Numbers and the retry delay\<close>

lemma double_of_int_exact: "\<bar>i\<bar> < 2 ^ 53 \<Longrightarrow> double_of_int i = Finite (of_int i)"
proof -
  assume "\<bar>i\<bar> < 2 ^ 53"
  then have "nat \<bar>i\<bar> < 2 ^ 53" by (simp add: nat_less_iff)
  then have "double_of_nat (nat \<bar>i\<bar>) = Some (nat \<bar>i\<bar>)" by (simp add: double_of_nat_def)
  then show ?thesis by (simp add: double_of_int_def)
qed

lemma bit_length_lower: "n \<noteq> 0 \<Longrightarrow> 2 ^ (bit_length n - 1) \<le> n"
proof (induction n rule: bit_length.induct)
  case (1 n)
  show ?case
  proof (cases "n div 2 = 0")
    case True
    with "1.prems" have "n = 1" by (simp add: div_eq_0_iff)
    then show ?thesis by (simp add: bit_length.simps)
  next
    case False
    with "1.IH" "1.prems" have ih: "2 ^ (bit_length (n div 2) - 1) \<le> n div 2" by simp
    from False have pos: "0 < bit_length (n div 2)"
      by (subst bit_length.simps) simp
    have "bit_length n = Suc (bit_length (n div 2))"
      using "1.prems" by (subst bit_length.simps) simp
    then have "(2::nat) ^ (bit_length n - 1) = 2 * 2 ^ (bit_length (n div 2) - 1)"
      using pos by (cases "bit_length (n div 2)") simp_all
    also have "\<dots> \<le> 2 * (n div 2)" using ih by simp
    also have "\<dots> \<le> n" by simp
    finally show ?thesis .
  qed
qed

lemma double_of_nat_nonzero:
  assumes "n \<noteq> 0" and "double_of_nat n = Some m"
  shows "m \<noteq> 0"
proof (cases "n < 2 ^ 53")
  case True
  with assms show ?thesis by (simp add: double_of_nat_def)
next
  case False
  let ?e = "bit_length n - 53"
  have "(2::nat) ^ ?e \<le> 2 ^ (bit_length n - 1)"
    by (rule power_increasing) simp_all
  also have "\<dots> \<le> n" using assms(1) by (rule bit_length_lower)
  finally have "1 \<le> n div 2 ^ ?e"
    by (simp add: div_greater_zero_iff Suc_le_eq)
  then show ?thesis
    using assms(2) False
    by (auto simp: double_of_nat_def Let_def split: if_splits)
qed

lemma double_of_int_nonzero: "i \<noteq> 0 \<Longrightarrow> double_of_int i \<noteq> Finite 0"
proof -
  assume "i \<noteq> 0"
  then have ne: "nat \<bar>i\<bar> \<noteq> 0" by simp
  show ?thesis
  proof (cases "double_of_nat (nat \<bar>i\<bar>)")
    case None
    then show ?thesis by (simp add: double_of_int_def)
  next
    case (Some m)
    with ne have "m \<noteq> 0" by (rule double_of_nat_nonzero)
    with Some show ?thesis by (simp add: double_of_int_def)
  qed
qed

lemma times_1000_int: "times_1000 (Finite (of_int j)) = double_of_int (j * 1000)"
  by (simp add: times_1000_def)

lemma times_1000_exact:
  "\<bar>j\<bar> * 1000 < 2 ^ 53 \<Longrightarrow> times_1000 (Finite (of_int j)) = Finite (of_int (j * 1000))"
proof -
  assume "\<bar>j\<bar> * 1000 < 2 ^ 53"
  then have "\<bar>j * 1000\<bar> < 2 ^ 53" by (simp add: abs_mult)
  then show ?thesis by (simp only: times_1000_int double_of_int_exact)
qed

lemma backoff_ms_multiple: "\<exists>j. backoff_ms k = 1000 * j \<and> 5 \<le> j \<and> j \<le> 60"
proof (cases "(5000::int) * 2 ^ k \<le> 60000")
  case True
  have "(1::int) \<le> 2 ^ k" by simp
  with True show ?thesis
    by (intro exI [of _ "5 * 2 ^ k"]) (simp add: backoff_ms_def)
next
  case False
  then show ?thesis by (intro exI [of _ 60]) (simp add: backoff_ms_def)
qed

lemma backoff_ms_bounds: "5000 \<le> backoff_ms k \<and> backoff_ms k \<le> 60000"
  using backoff_ms_multiple [of k] by auto

lemma backoff_seconds:
  "times_1000 (Finite (of_int (backoff_ms k) / 1000)) = Finite (of_int (backoff_ms k))"
proof -
  from backoff_ms_multiple [of k] obtain j where
    j: "backoff_ms k = 1000 * j" "5 \<le> j" "j \<le> 60" by blast
  then have "\<bar>j\<bar> * 1000 < 2 ^ 53" by simp
  from times_1000_exact [OF this] j(1) show ?thesis by (simp add: mult.commute)
qed

lemma next_delay_backoff: "(next_delay ^^ k) 5000 = backoff_ms k"
  by (simp add: next_delay_pow backoff_ms_def)

lemma isDigit_not_s: "isDigit c \<Longrightarrow> c \<noteq> CHR ''s''"
  by (auto simp: isDigit_def)

lemma isDigit_plain:
  "isDigit c \<Longrightarrow> \<not> isWhiteSpace c \<and> c \<noteq> CHR ''+'' \<and> c \<noteq> CHR ''-''"
  by (auto simp: isDigit_def isWhiteSpace_def)

lemma replace_s_digits: "list_all isDigit ds \<Longrightarrow> replace_s (ds @ ''s'') = ds"
  by (induction ds) (auto dest: isDigit_not_s)

lemma parseInt10_digits:
  assumes "ds \<noteq> []" and "list_all isDigit ds"
  shows "parseInt10 ds = Some (double_of_int (int (digits_value ds)))"
proof -
  from assms obtain c cs where ds: "ds = c # cs" and c: "isDigit c" and cs: "list_all isDigit cs"
    by (cases ds) auto
  from c have plain: "\<not> isWhiteSpace c" "c \<noteq> CHR ''+''" "c \<noteq> CHR ''-''"
    by (simp_all add: isDigit_plain)
  have "takeWhile isDigit ds = ds"
    using assms(2) by (simp add: list_all_iff)
  then show ?thesis
    using plain by (simp add: parseInt10_def ds Let_def)
qed

lemma parseInt10_well_formed:
  assumes "well_formed_delay s"
  shows "parseInt10 (replace_s s) = Some (double_of_int (int (digits_value (butlast s))))"
proof -
  from assms have s: "s = butlast s @ ''s''" and ne: "butlast s \<noteq> []"
    and digits: "list_all isDigit (butlast s)"
    by (auto simp: well_formed_delay_def dest: append_butlast_last_id [symmetric])
  from replace_s_digits [OF digits] s have "replace_s s = butlast s" by simp
  with parseInt10_digits [OF ne digits] show ?thesis by simp
qed

lemma extractRetryDelay_field:
  "extractRetryDelay e =
     (case retry_delay_field e of
        None \<Rightarrow> None
      | Some s \<Rightarrow> if s = [] then None else parseInt10 (replace_s s))"
  by (simp add: extractRetryDelay_def retry_delay_field_def split: option.splits)

text \<open>The seconds after a rate-limit failure: the backoff delay where the failure has no
  retry delay to use, the value of a well-formed one where it is not 0 and is exact.\<close>

lemma retry_seconds_fallback:
  "no_retry_delay e \<Longrightarrow> retry_seconds e delay = Finite (of_int delay / 1000)"
  by (auto simp: no_retry_delay_def retry_seconds_def extractRetryDelay_field
        split: option.splits)

lemma retry_seconds_well_formed:
  assumes "retry_delay_field e = Some s" and "well_formed_delay s"
    and "digits_value (butlast s) \<noteq> 0" and "digits_value (butlast s) < 2 ^ 53"
  shows "retry_seconds e delay = Finite (of_nat (digits_value (butlast s)))"
proof -
  let ?n = "digits_value (butlast s)"
  from assms(2) have ne: "s \<noteq> []" by (simp add: well_formed_delay_def)
  from assms(4) have "\<bar>int ?n\<bar> < 2 ^ 53" by (simp add: of_nat_less_numeral_power_cancel_iff)
  then have "double_of_int (int ?n) = Finite (of_int (int ?n))" by (rule double_of_int_exact)
  with parseInt10_well_formed [OF assms(2)]
  have "extractRetryDelay e = Some (Finite (of_nat ?n))"
    using assms(1) ne by (simp add: extractRetryDelay_field)
  with assms(3) show ?thesis by (simp add: retry_seconds_def)
qed

lemma retry_seconds_parsed:
  assumes "retry_delay_field e = Some s" and "well_formed_delay s"
    and "digits_value (butlast s) \<noteq> 0"
  shows "retry_seconds e delay = double_of_int (int (digits_value (butlast s)))"
proof -
  let ?n = "digits_value (butlast s)"
  from assms(2) have ne: "s \<noteq> []" by (simp add: well_formed_delay_def)
  from assms(3) have "double_of_int (int ?n) \<noteq> Finite 0"
    by (intro double_of_int_nonzero) simp
  moreover from parseInt10_well_formed [OF assms(2)]
  have "extractRetryDelay e = Some (double_of_int (int ?n))"
    using assms(1) ne by (simp add: extractRetryDelay_field)
  ultimately show ?thesis by (simp add: retry_seconds_def)
qed


lemma wait_ms_parsed:
  assumes "classify e = RateLimited"
    and "retry_delay_field e = Some s" and "well_formed_delay s"
    and "digits_value (butlast s) \<noteq> 0"
  shows "wait_ms e delay = times_1000 (double_of_int (int (digits_value (butlast s))))"
  using assms(1) retry_seconds_parsed [OF assms(2,3,4), of delay]
  by (simp add: wait_ms_def)

lemma wait_ms_transient: "classify e = Transient \<Longrightarrow> wait_ms e delay = Finite (of_int delay)"
  by (simp add: wait_ms_def)

lemma wait_ms_fallback:
  "classify e = RateLimited \<Longrightarrow> no_retry_delay e \<Longrightarrow>
   wait_ms e (backoff_ms k) = Finite (of_int (backoff_ms k))"
  by (simp add: wait_ms_def retry_seconds_fallback backoff_seconds)

lemma wait_ms_well_formed:
  assumes "classify e = RateLimited"
    and "retry_delay_field e = Some s" and "well_formed_delay s"
    and "digits_value (butlast s) \<noteq> 0" and "1000 * digits_value (butlast s) < 2 ^ 53"
  shows "wait_ms e delay = Finite (of_nat (1000 * digits_value (butlast s)))"
proof -
  let ?n = "digits_value (butlast s)"
  from assms(5) have small: "?n < 2 ^ 53" by simp
  from assms(5) have "int (1000 * ?n) < int (2 ^ 53)" by (simp only: of_nat_less_iff)
  then have "\<bar>int ?n\<bar> * 1000 < 2 ^ 53" by simp
  from times_1000_exact [OF this]
  have "times_1000 (Finite (of_nat ?n)) = Finite (of_nat (1000 * ?n))"
    by (simp add: mult.commute)
  with retry_seconds_well_formed [OF assms(2,3,4) small, of delay] assms(1)
  show ?thesis by (simp add: wait_ms_def)
qed

section \<open>Any run of the loop\<close>

lemma body_leave:
  assumes "attempt_body service req maxRetries attempt delay tr = Inr out"
  shows "\<not> rejects_retryably service req (invocations tr)
       \<and> (\<exists>tr'. snd out = tr @ tr' \<and> requests tr' = [req])
       \<and> (case fst out of
              Inr r \<Rightarrow> service (invocations tr) req = Resolved r
            | Inl (Thrown e) \<Rightarrow> classify e = Fatal \<and> service (invocations tr) req = Rejected e
            | Inl (Error text) \<Rightarrow> False
            | Inl TypeError \<Rightarrow> \<exists>u. service (invocations tr) req = RejectedNullish u)"
  using assms
  by (auto simp add: attempt_body_def rejects_retryably_def retryable_def classify_def
        Let_def split: outcome.splits option.splits if_splits)

lemma retry_loop_outcome:
  "loop_outcome service req maxRetries attempt tr
     (retry_loop service req maxRetries attempt delay tr)"
proof (induction service req maxRetries attempt delay tr rule: retry_loop.induct)
  case (1 service req maxRetries attempt delay tr)
  show ?case
  proof (cases "attempt \<le> maxRetries")
    case False
    then show ?thesis
      by (simp add: retry_loop_exhausted loop_outcome_def)
  next
    case True
    show ?thesis
    proof (cases "attempt_body service req maxRetries attempt delay tr")
      case (Inr out)
      from retry_loop_leave [OF True Inr] have run:
        "retry_loop service req maxRetries attempt delay tr = out" .
      from body_leave [OF Inr] obtain tr' where
        nr: "\<not> rejects_retryably service req (invocations tr)"
        and tr': "snd out = tr @ tr'" "requests tr' = [req]"
        and res: "case fst out of
              Inr r \<Rightarrow> service (invocations tr) req = Resolved r
            | Inl (Thrown e) \<Rightarrow> classify e = Fatal \<and> service (invocations tr) req = Rejected e
            | Inl (Error text) \<Rightarrow> False
            | Inl TypeError \<Rightarrow> \<exists>u. service (invocations tr) req = RejectedNullish u"
        by blast
      have "requests tr' = replicate 1 req" using tr'(2) by simp
      moreover have "int 1 \<le> max 0 (maxRetries + 1 - attempt)" using True by simp
      moreover have "case fst out of
              Inr r \<Rightarrow> \<exists>i. service i req = Resolved r
            | Inl (Thrown e) \<Rightarrow> classify e = Fatal \<and> (\<exists>i. service i req = Rejected e)
            | Inl (Error text) \<Rightarrow> text = ''Max retries reached for LLM call''
            | Inl TypeError \<Rightarrow> \<exists>i u. service i req = RejectedNullish u"
        using res by (auto split: sum.splits thrown.splits)
      ultimately show ?thesis
        unfolding loop_outcome_def run using tr'(1) by (intro exI [of _ tr'] exI [of _ 1]) simp
    next
      case (Inl c)
      obtain d1 tr1 where c: "c = (d1, tr1)" by (cases c)
      note body = Inl [unfolded c]
      from retry_loop_continue [OF True body] have run:
        "retry_loop service req maxRetries attempt delay tr =
         retry_loop service req maxRetries (attempt + 1) d1 tr1" .
      from body_continue [OF body] have rr: "rejects_retryably service req (invocations tr)"
        by simp
      then obtain e where e: "service (invocations tr) req = Rejected e" "retryable e"
        by (auto simp: rejects_retryably_def split: outcome.splits)
      have "\<exists>l. attempt_body service req maxRetries attempt delay tr =
         Inl (next_delay delay, tr @ [Invoked req, Logged WARN l, Slept (wait_ms e delay)])"
        using e by (rule body_retryable)
      with body obtain l where
        tr1: "tr1 = tr @ [Invoked req, Logged WARN l, Slept (wait_ms e delay)]"
        by auto
      let ?out = "retry_loop service req maxRetries (attempt + 1) d1 tr1"
      from "1.IH" [OF True Inl c [symmetric]]
      have "loop_outcome service req maxRetries (attempt + 1) tr1 ?out" .
      then obtain tr' n where
        ih: "snd ?out = tr1 @ tr'" "requests tr' = replicate n req"
          "int n \<le> max 0 (maxRetries + 1 - (attempt + 1))"
          "case fst ?out of
              Inr r \<Rightarrow> \<exists>i. service i req = Resolved r
            | Inl (Thrown e) \<Rightarrow> classify e = Fatal \<and> (\<exists>i. service i req = Rejected e)
            | Inl (Error text) \<Rightarrow> text = ''Max retries reached for LLM call''
            | Inl TypeError \<Rightarrow> \<exists>i u. service i req = RejectedNullish u"
        unfolding loop_outcome_def by blast
      let ?new = "[Invoked req, Logged WARN l, Slept (wait_ms e delay)] @ tr'"
      have "snd ?out = tr @ ?new" using ih(1) tr1 by simp
      moreover have "requests ?new = replicate (Suc n) req" using ih(2) by simp
      moreover have "int (Suc n) \<le> max 0 (maxRetries + 1 - attempt)"
        using ih(3) True by simp
      ultimately show ?thesis
        unfolding loop_outcome_def run using ih(4) rr
        by (intro exI [of _ ?new] exI [of _ "Suc n"]) simp
    qed
  qed
qed

section \<open>The two calls of \<^verbatim>\<open>runIteration\<close>\<close>

lemma generateWithRetry_outcome:
  "loop_outcome service (Request systemPrompt messages modelName isAgent signal) maxRetries 1 tr
     (generateWithRetry service systemPrompt messages modelName isAgent signal maxRetries tr)"
  unfolding generateWithRetry_def by (rule retry_loop_outcome)

lemma primary_call_outcome:
  "loop_outcome service (primary_request ps this messages m) 10 1
     (tr @ [Logged LOG (Processing taskId (name m))])
     (primary_call service ps this taskId messages m tr)"
  unfolding primary_call_def primary_request_def by (rule generateWithRetry_outcome)

lemma summary_call_outcome:
  "loop_outcome service (summary_request ps this dates taskId messages m) 10 1 tr1
     (summary_call service ps this dates taskId messages m tr1)"
  unfolding summary_call_def summary_request_def by (rule generateWithRetry_outcome)

lemma runIteration_calls:
  "runIteration service ps this dates taskId messages m shouldSummarize tr =
     (case primary_call service ps this taskId messages m tr of
        (Inl err, tr1) \<Rightarrow> (Inl err, tr1)
      | (Inr agentResponse, tr1) \<Rightarrow>
          if shouldSummarize then
            (case summary_call service ps this dates taskId messages m tr1 of
               (Inl err, tr2) \<Rightarrow> (Inl err, tr2)
             | (Inr summaryResponse, tr2) \<Rightarrow> (Inr (), tr2 @ [Logged LOG (Completed taskId)]))
          else (Inr (), tr1 @ [Logged LOG (Completed taskId)]))"
  by (simp add: runIteration_def primary_call_def summary_call_def Let_def
        split: prod.splits sum.splits)

text \<open>The requests of one \<^verbatim>\<open>runIteration\<close>.\<close>

lemma runIteration_requests:
  "\<exists>tr' n1 n2.
     snd (runIteration service ps this dates taskId messages m shouldSummarize tr) = tr @ tr'
     \<and> requests tr' = replicate n1 (primary_request ps this messages m)
                      @ replicate n2 (summary_request ps this dates taskId messages m)
     \<and> 1 \<le> n1 \<and> n1 \<le> 10 \<and> n2 \<le> 10
     \<and> (\<not> rejects_retryably service (primary_request ps this messages m) (invocations tr)
          \<longrightarrow> n1 = 1)
     \<and> (n2 = 0 \<longleftrightarrow>
          \<not> shouldSummarize \<or> isl (fst (primary_call service ps this taskId messages m tr)))
     \<and> (0 < n2 \<longrightarrow>
          \<not> rejects_retryably service (summary_request ps this dates taskId messages m)
               (invocations tr + n1)
          \<longrightarrow> n2 = 1)"
proof -
  let ?req1 = "primary_request ps this messages m"
  let ?req2 = "summary_request ps this dates taskId messages m"
  let ?tr0 = "tr @ [Logged LOG (Processing taskId (name m))]"
  obtain res1 tr1 where p: "primary_call service ps this taskId messages m tr = (res1, tr1)"
    by (cases "primary_call service ps this taskId messages m tr")
  from primary_call_outcome [of service ps this messages m tr taskId] p
  obtain new1 n1 where
    1: "tr1 = ?tr0 @ new1" "requests new1 = replicate n1 ?req1" "n1 \<le> 10" "1 \<le> n1"
      "\<not> rejects_retryably service ?req1 (invocations tr) \<longrightarrow> n1 = 1"
    unfolding loop_outcome_def by auto
  let ?log = "Logged LOG (Processing taskId (name m))"
  show ?thesis
  proof (cases "shouldSummarize \<and> \<not> isl res1")
    case False
    then have "\<exists>ev. snd (runIteration service ps this dates taskId messages m shouldSummarize tr)
        = tr1 @ ev \<and> requests ev = []"
      using p by (auto simp: runIteration_calls split: sum.splits)
    then obtain ev where ev:
      "snd (runIteration service ps this dates taskId messages m shouldSummarize tr) = tr1 @ ev"
      "requests ev = []" by blast
    have "snd (runIteration service ps this dates taskId messages m shouldSummarize tr)
        = tr @ ([?log] @ new1 @ ev)" using ev(1) 1(1) by simp
    moreover have "requests ([?log] @ new1 @ ev) = replicate n1 ?req1 @ replicate 0 ?req2"
      using 1(2) ev(2) by simp
    ultimately show ?thesis
      using 1(3,4,5) False p
      by (intro exI [of _ "[?log] @ new1 @ ev"] exI [of _ n1] exI [of _ 0]) auto
  next
    case True
    then obtain a where res1: "res1 = Inr a" by (cases res1) auto
    obtain res2 tr2 where
      s: "summary_call service ps this dates taskId messages m tr1 = (res2, tr2)"
      by (cases "summary_call service ps this dates taskId messages m tr1")
    have inv1: "invocations tr1 = invocations tr + n1"
      using 1(1,2) by (simp add: invocations_requests)
    from summary_call_outcome [of service ps this dates taskId messages m tr1] s
    obtain new2 n2 where
      2: "tr2 = tr1 @ new2" "requests new2 = replicate n2 ?req2" "n2 \<le> 10" "1 \<le> n2"
        "\<not> rejects_retryably service ?req2 (invocations tr + n1) \<longrightarrow> n2 = 1"
      unfolding loop_outcome_def inv1 by auto
    have "\<exists>ev. snd (runIteration service ps this dates taskId messages m shouldSummarize tr)
        = tr2 @ ev \<and> requests ev = []"
      using p s True res1 by (auto simp: runIteration_calls split: sum.splits)
    then obtain ev where ev:
      "snd (runIteration service ps this dates taskId messages m shouldSummarize tr) = tr2 @ ev"
      "requests ev = []" by blast
    have "snd (runIteration service ps this dates taskId messages m shouldSummarize tr)
        = tr @ ([?log] @ new1 @ new2 @ ev)" using ev(1) 1(1) 2(1) by simp
    moreover have "requests ([?log] @ new1 @ new2 @ ev)
        = replicate n1 ?req1 @ replicate n2 ?req2"
      using 1(2) 2(2) ev(2) by simp
    ultimately show ?thesis
      using 1(3,4,5) 2(3,4,5) True p res1
      by (intro exI [of _ "[?log] @ new1 @ new2 @ ev"] exI [of _ n1] exI [of _ n2]) auto
  qed
qed

text \<open>The signal of every request of one instance.\<close>

lemma runIteration_signal:
  "\<exists>tr'. snd (runIteration service ps this dates taskId messages m shouldSummarize tr) = tr @ tr'
     \<and> (\<forall>req\<in>set (requests tr'). signal_of req = abortController this)"
proof -
  from runIteration_requests [of service ps this dates taskId messages m shouldSummarize tr]
  obtain tr' n1 n2 where
    "snd (runIteration service ps this dates taskId messages m shouldSummarize tr) = tr @ tr'"
    "requests tr' = replicate n1 (primary_request ps this messages m)
                      @ replicate n2 (summary_request ps this dates taskId messages m)"
    by blast
  moreover have "signal_of (primary_request ps this messages m) = abortController this"
    "signal_of (summary_request ps this dates taskId messages m) = abortController this"
    by (simp_all add: primary_request_def summary_request_def)
  ultimately show ?thesis by auto
qed

lemma runIterations_signal:
  "\<exists>tr'. runIterations service ps this xs tr = tr @ tr'
     \<and> (\<forall>req\<in>set (requests tr'). signal_of req = abortController this)"
proof (induction xs arbitrary: tr)
  case Nil
  show ?case by simp
next
  case (Cons x xs)
  let ?tr1 = "snd (runIteration service ps this (it_dates x) (it_taskId x) (it_messages x)
               (it_model x) (it_shouldSummarize x) tr)"
  from runIteration_signal obtain new1 where
    1: "?tr1 = tr @ new1" "\<forall>req\<in>set (requests new1). signal_of req = abortController this"
    by blast
  from Cons.IH [of ?tr1] obtain new2 where
    2: "runIterations service ps this xs ?tr1 = ?tr1 @ new2"
      "\<forall>req\<in>set (requests new2). signal_of req = abortController this"
    by blast
  have "runIterations service ps this (x # xs) tr = tr @ (new1 @ new2)"
    using 1(1) 2(1) by simp
  moreover have "\<forall>req\<in>set (requests (new1 @ new2)). signal_of req = abortController this"
    using 1(2) 2(2) by auto
  ultimately show ?case by blast
qed

section \<open>The claims\<close>

subsection \<open>C1: success after retryable failures\<close>

text \<open>
  C1. Let \<open>N\<close> be at least 1 and at most \<^verbatim>\<open>maxRetries\<close>. If the first \<open>N - 1\<close> invocations
  of the provider are rejected with a failure classified RateLimited (code 429) or Transient
  (code from 500 to 599) and the \<open>N\<close>-th is resolved, then \<^verbatim>\<open>generateWithRetry\<close> returns
  the resolved value as it is. Its events are \<open>N - 1\<close> rounds of a call, a log line and
  a timed wait, followed by one call: \<open>N\<close> invocations, all with the arguments of the
  method, and \<open>N - 1\<close> waits, one after each failed attempt and none after the success.
\<close>

theorem generateWithRetry_succeeds_after_failures:
  fixes N :: nat
  assumes "0 < N" and "int N \<le> maxRetries"
    and "\<forall>i<N - 1. rejects_retryably service (Request systemPrompt messages modelName isAgent signal)
           (invocations tr + i)"
    and "service (invocations tr + (N - 1)) (Request systemPrompt messages modelName isAgent signal)
           = Resolved r"
  shows "\<exists>tr'. generateWithRetry service systemPrompt messages modelName isAgent signal maxRetries tr
           = (Inr r, tr @ tr')
       \<and> kinds tr' = concat (replicate (N - 1) [Call, Note, Wait]) @ [Call]
       \<and> length (waits tr') = N - 1
       \<and> requests tr' = replicate N (Request systemPrompt messages modelName isAgent signal)"
proof -
  let ?req = "Request systemPrompt messages modelName isAgent signal"
  from assms(1,2) have "1 + int (N - 1) \<le> maxRetries" by simp
  from retry_loop_then_resolved [OF assms(3) this assms(4), of 5000] obtain tr' where
    "retry_loop service ?req maxRetries 1 5000 tr = (Inr r, tr @ tr')"
    "kinds tr' = concat (replicate (N - 1) [Call, Note, Wait]) @ [Call]"
    "requests tr' = replicate (Suc (N - 1)) ?req"
    by blast
  moreover from this(2) have "length (waits tr') = N - 1"
    by (rule waits_of_rounds) simp
  ultimately show ?thesis using assms(1) by (auto simp: generateWithRetry_def)
qed

theorem generateWithRetry_succeeds_after_failures_witness:
  "\<exists>tr'. generateWithRetry (scripted [Rejected e429, Rejected e500] (Resolved (7::nat)))
            ''p'' [] ''m'' True 0 3 []
           = (Inr 7, [] @ tr')
       \<and> kinds tr' = concat (replicate (3 - 1) [Call, Note, Wait]) @ [Call]
       \<and> length (waits tr') = 3 - 1
       \<and> requests tr' = replicate 3 (Request ''p'' [] ''m'' True 0)"
  by (rule generateWithRetry_succeeds_after_failures)
     (simp_all add: scripted_def rejects_retryably_def retryable_def classify_def error_code_def
        e429_def e500_def less_2_cases_iff)

subsection \<open>C2: exhaustion after \<^verbatim>\<open>maxRetries\<close> invocations\<close>

text \<open>
  C2. Let \<^verbatim>\<open>maxRetries\<close> be at least 1. If each of the first \<^verbatim>\<open>maxRetries\<close> invocations of
  the provider is rejected with a retryable failure (RateLimited or Transient), then
  \<^verbatim>\<open>generateWithRetry\<close> invokes the provider exactly \<^verbatim>\<open>maxRetries\<close> times, never once
  more, and then throws its own error \<^verbatim>\<open>Max retries reached for LLM call\<close>, which is none
  of the provider's errors.
\<close>

theorem generateWithRetry_exhausts_after_maxRetries_invocations:
  assumes "1 \<le> maxRetries"
    and "\<forall>i<nat maxRetries.
           rejects_retryably service (Request systemPrompt messages modelName isAgent signal)
             (invocations tr + i)"
  shows "\<exists>tr'. generateWithRetry service systemPrompt messages modelName isAgent signal maxRetries tr
           = (Inl (Error ''Max retries reached for LLM call''), tr @ tr')
       \<and> requests tr' = replicate (nat maxRetries)
           (Request systemPrompt messages modelName isAgent signal)
       \<and> invocations tr' = nat maxRetries
       \<and> (\<forall>e. Error ''Max retries reached for LLM call'' \<noteq> Thrown e)"
proof -
  let ?req = "Request systemPrompt messages modelName isAgent signal"
  from assms(1) have "1 + int (nat maxRetries) = maxRetries + 1" by simp
  from retry_loop_all_fail [OF assms(2) this, of 5000] obtain tr' where
    "retry_loop service ?req maxRetries 1 5000 tr =
       (Inl (Error ''Max retries reached for LLM call''), tr @ tr')"
    "requests tr' = replicate (nat maxRetries) ?req"
    by blast
  then show ?thesis
    by (auto simp: generateWithRetry_def invocations_requests)
qed

theorem generateWithRetry_exhausts_after_maxRetries_invocations_witness:
  "\<exists>tr'. generateWithRetry (scripted [Rejected e500, Rejected e500] (Resolved (7::nat)))
            ''p'' [] ''m'' True 0 2 []
           = (Inl (Error ''Max retries reached for LLM call''), [] @ tr')
       \<and> requests tr' = replicate (nat 2) (Request ''p'' [] ''m'' True 0)
       \<and> invocations tr' = nat 2
       \<and> (\<forall>e. Error ''Max retries reached for LLM call'' \<noteq> Thrown e)"
  by (rule generateWithRetry_exhausts_after_maxRetries_invocations)
     (simp_all add: scripted_def rejects_retryably_def retryable_def classify_def error_code_def
        e500_def less_2_cases_iff)

subsection \<open>C3: a fatal failure ends the method\<close>

text \<open>
  Where the provider rejects with an object: let \<open>k\<close> be at least 1 and at most
  \<^verbatim>\<open>maxRetries\<close>. If the \<open>k\<close>-th invocation of the provider (after \<open>k - 1\<close> retryable failures)
  is rejected with an object classified Fatal, then \<^verbatim>\<open>generateWithRetry\<close> ends at attempt
  \<open>k\<close>: after the \<open>k\<close>-th call it writes one log line, invokes the provider no more, waits
  no more, and throws the provider's error as it received it.
\<close>

lemma generateWithRetry_stops_at_fatal_object:
  fixes k :: nat
  assumes "0 < k" and "int k \<le> maxRetries"
    and "\<forall>i<k - 1. rejects_retryably service (Request systemPrompt messages modelName isAgent signal)
           (invocations tr + i)"
    and "service (invocations tr + (k - 1)) (Request systemPrompt messages modelName isAgent signal)
           = Rejected e"
    and "classify e = Fatal"
  shows "\<exists>tr'. generateWithRetry service systemPrompt messages modelName isAgent signal maxRetries tr
           = (Inl (Thrown e), tr @ tr')
       \<and> kinds tr' = concat (replicate (k - 1) [Call, Note, Wait]) @ [Call, Note]
       \<and> length (waits tr') = k - 1
       \<and> requests tr' = replicate k (Request systemPrompt messages modelName isAgent signal)"
proof -
  let ?req = "Request systemPrompt messages modelName isAgent signal"
  from assms(1,2) have "1 + int (k - 1) \<le> maxRetries" by simp
  from retry_loop_then_fatal [OF assms(3) this assms(4,5), of 5000] obtain tr' where
    "retry_loop service ?req maxRetries 1 5000 tr = (Inl (Thrown e), tr @ tr')"
    "kinds tr' = concat (replicate (k - 1) [Call, Note, Wait]) @ [Call, Note]"
    "requests tr' = replicate (Suc (k - 1)) ?req"
    by blast
  moreover from this(2) have "length (waits tr') = k - 1"
    by (rule waits_of_rounds) simp
  ultimately show ?thesis using assms(1) by (auto simp: generateWithRetry_def)
qed

text \<open>
  C3. For every attempt \<open>k\<close> up to \<^verbatim>\<open>maxRetries\<close>, if the \<open>k\<close>-th invocation of the provider
  fails with a failure classified Fatal, that is, any failure whose code or status is neither
  429 nor from 500 to 599, then \<^verbatim>\<open>generateWithRetry\<close> ends at attempt \<open>k\<close> and the error it
  throws is the provider's failure, unmodified.

  The source does not do so for a rejection with \<^verbatim>\<open>undefined\<close> or \<^verbatim>\<open>null\<close>. Its code is
  \<^verbatim>\<open>undefined\<close> (\<^verbatim>\<open>error?.code || error?.status\<close> allows for such an \<^verbatim>\<open>error\<close>), neither 429
  nor from 500 to 599, so the \<^verbatim>\<open>catch\<close> block comes to its last branch; there
  \<^verbatim>\<open>error.message\<close> raises a \<^verbatim>\<open>TypeError\<close> before the log line is written and before
  \<^verbatim>\<open>throw error\<close>. The method ends at that attempt, but what it throws is the
  \<^verbatim>\<open>TypeError\<close>: at the first attempt, and at the second after a failure with status 500.
\<close>

theorem generateWithRetry_nullish_rejection:
  "generateWithRetry (scripted [RejectedNullish Undefined] (Resolved (7::nat)))
       ''p'' [] ''m'' True 0 10 []
     = (Inl TypeError, [Invoked (Request ''p'' [] ''m'' True 0)])
   \<and> generateWithRetry (scripted [Rejected e500, RejectedNullish Null] (Resolved (7::nat)))
       ''p'' [] ''m'' True 0 10 []
     = (Inl TypeError,
        [Invoked (Request ''p'' [] ''m'' True 0),
         Logged WARN (ServerError 500 5 1 10),
         Slept (Finite 5000),
         Invoked (Request ''p'' [] ''m'' True 0)])"
  by (simp add: generateWithRetry_def retry_loop.simps attempt_body_def scripted_def e500_def
        error_code_def sleep_def)

subsection \<open>C4: the backoff delay\<close>



subsection \<open>C5: the wait after a rate-limit failure\<close>




subsection \<open>C6: the provider invocations of \<^verbatim>\<open>runIteration\<close>\<close>

text \<open>
  C6, as amended. For every list of input messages, the provider invocations of one
  \<^verbatim>\<open>runIteration\<close> are \<open>n1\<close> invocations with the request of the primary call, which carries
  the input messages, followed by \<open>n2\<close> invocations with the request of the summarisation
  call. \<open>n1\<close> is between 1 and 10, and it is 1 when the first invocation is not rejected
  retryably. \<open>n2\<close> is 0 exactly when \<^verbatim>\<open>shouldSummarize\<close> is false or the primary call failed;
  otherwise it is between 1 and 10, and 1 when the first invocation of the second call is not
  rejected retryably. The messages of the summarisation request are the input messages and
  one more, the last: the synthetic message with role user, the one fixed text block that
  asks for a summary, the caller's \<^verbatim>\<open>taskId\<close> and \<^verbatim>\<open>summaryId\<close> null.
\<close>

theorem runIteration_invocations:
  "\<exists>tr' n1 n2.
     snd (runIteration service ps this dates taskId messages m shouldSummarize tr) = tr @ tr'
     \<and> requests tr' = replicate n1 (primary_request ps this messages m)
                      @ replicate n2 (summary_request ps this dates taskId messages m)
     \<and> 1 \<le> n1 \<and> n1 \<le> 10 \<and> n2 \<le> 10
     \<and> (\<not> rejects_retryably service (primary_request ps this messages m) (invocations tr)
          \<longrightarrow> n1 = 1)
     \<and> (n2 = 0 \<longleftrightarrow>
          \<not> shouldSummarize \<or> isl (fst (primary_call service ps this taskId messages m tr)))
     \<and> (0 < n2 \<longrightarrow>
          \<not> rejects_retryably service (summary_request ps this dates taskId messages m)
               (invocations tr + n1)
          \<longrightarrow> n2 = 1)
     \<and> messages_of (primary_request ps this messages m) = messages
     \<and> length (messages_of (summary_request ps this dates taskId messages m))
          = length messages + 1
     \<and> butlast (messages_of (summary_request ps this dates taskId messages m)) = messages
     \<and> last (messages_of (summary_request ps this dates taskId messages m))
          = summary_message dates taskId
     \<and> role (summary_message dates taskId) = USER
     \<and> content (summary_message dates taskId)
          = [\<lparr>block_type = Text, block_text = summary_request_text\<rparr>]
     \<and> msg_taskId (summary_message dates taskId) = taskId
     \<and> summaryId (summary_message dates taskId) = None"
proof -
  have "messages_of (primary_request ps this messages m) = messages"
    "length (messages_of (summary_request ps this dates taskId messages m))
          = length messages + 1"
    "butlast (messages_of (summary_request ps this dates taskId messages m)) = messages"
    "last (messages_of (summary_request ps this dates taskId messages m))
          = summary_message dates taskId"
    by (simp_all add: primary_request_def summary_request_def)
  moreover have "role (summary_message dates taskId) = USER"
    "content (summary_message dates taskId)
          = [\<lparr>block_type = Text, block_text = summary_request_text\<rparr>]"
    "msg_taskId (summary_message dates taskId) = taskId"
    "summaryId (summary_message dates taskId) = None"
    by (simp_all add: summary_message_def)
  ultimately show ?thesis
    using runIteration_requests [of service ps this dates taskId messages m shouldSummarize tr]
    by (elim exE conjE, intro exI conjI) assumption+
qed

theorem runIteration_invocations_witness:
  "requests (snd (runIteration (scripted [] (Resolved (7::nat))) ps0 this0 (1, 2) ''t'' [msg0] m0
      True []))
   = [primary_request ps0 this0 [msg0] m0, summary_request ps0 this0 (1, 2) ''t'' [msg0] m0]"
proof -
  let ?service = "scripted [] (Resolved (7::nat))"
  have never: "\<not> rejects_retryably ?service req i" for req i
    by (simp add: rejects_retryably_def scripted_def)
  have ok: "\<not> isl (fst (primary_call ?service ps0 this0 ''t'' [msg0] m0 []))"
    by (simp add: primary_call_def generateWithRetry_def retry_loop.simps attempt_body_def
          scripted_def)
  from runIteration_invocations [of ?service ps0 this0 "(1, 2)" "''t''" "[msg0]" m0 True "[]"]
  obtain tr' n1 n2 where
    out: "snd (runIteration ?service ps0 this0 (1, 2) ''t'' [msg0] m0 True []) = [] @ tr'"
    and reqs: "requests tr' = replicate n1 (primary_request ps0 this0 [msg0] m0)
                      @ replicate n2 (summary_request ps0 this0 (1, 2) ''t'' [msg0] m0)"
    and n1: "\<not> rejects_retryably ?service (primary_request ps0 this0 [msg0] m0) (invocations [])
          \<longrightarrow> n1 = 1"
    and n2: "n2 = 0 \<longleftrightarrow> \<not> True \<or> isl (fst (primary_call ?service ps0 this0 ''t'' [msg0] m0 []))"
      "0 < n2 \<longrightarrow>
          \<not> rejects_retryably ?service (summary_request ps0 this0 (1, 2) ''t'' [msg0] m0)
               (invocations [] + n1)
          \<longrightarrow> n2 = 1"
    by (elim exE conjE)
  from n1 n2 never ok have "n1 = 1" "n2 = 1" by auto
  with out reqs show ?thesis by simp
qed

text \<open>
  C6 as stated fails: with \<^verbatim>\<open>shouldSummarize\<close> false and a provider that rejects its first
  invocation with status 500 and resolves the second, \<^verbatim>\<open>runIteration\<close> invokes the
  provider twice, not once.
\<close>

theorem runIteration_invocations_counterexample:
  "invocations (snd (runIteration (scripted [Rejected e500] (Resolved (7::nat))) ps0 this0 (1, 2)
      ''t'' [msg0] m0 False [])) = 2"
  by (simp add: runIteration_def generateWithRetry_def retry_loop.simps attempt_body_def
        scripted_def e500_def error_code_def sleep_def)

subsection \<open>C7: what the caller of \<^verbatim>\<open>runIteration\<close> sees\<close>

text \<open>
  What \<^verbatim>\<open>runIteration\<close> returns: it completes, or throws the error of exhaustion of
  \<^verbatim>\<open>generateWithRetry\<close>, or throws an object with which the provider rejected an
  invocation and which is classified Fatal, or throws a \<^verbatim>\<open>TypeError\<close> after a rejection
  with \<^verbatim>\<open>undefined\<close> or \<^verbatim>\<open>null\<close>. A retryable failure is never what the caller sees.
  When the primary call has succeeded and the summarisation call fails, \<^verbatim>\<open>runIteration\<close>
  ends with the error and with the events of the failed call as its last ones: nothing
  tells the caller that the primary call had succeeded.
\<close>

lemma runIteration_outcomes:
  "(fst (runIteration service ps this dates taskId messages m shouldSummarize tr) = Inr ()
    \<or> fst (runIteration service ps this dates taskId messages m shouldSummarize tr)
         = Inl (Error ''Max retries reached for LLM call'')
    \<or> (\<exists>e i req.
          fst (runIteration service ps this dates taskId messages m shouldSummarize tr)
            = Inl (Thrown e)
          \<and> classify e = Fatal \<and> \<not> retryable e \<and> service i req = Rejected e)
    \<or> (fst (runIteration service ps this dates taskId messages m shouldSummarize tr)
          = Inl TypeError
        \<and> (\<exists>i req u. service i req = RejectedNullish u)))
   \<and> (\<forall>agentResponse tr1 err tr2.
          shouldSummarize \<longrightarrow>
          primary_call service ps this taskId messages m tr = (Inr agentResponse, tr1) \<longrightarrow>
          summary_call service ps this dates taskId messages m tr1 = (Inl err, tr2) \<longrightarrow>
          runIteration service ps this dates taskId messages m shouldSummarize tr
            = (Inl err, tr2))"
proof -
  let ?run = "runIteration service ps this dates taskId messages m shouldSummarize tr"
  let ?P = "\<lambda>res. res = Inr ()
    \<or> res = Inl (Error ''Max retries reached for LLM call'')
    \<or> (\<exists>e i req. res = Inl (Thrown e) \<and> classify e = Fatal \<and> \<not> retryable e
          \<and> service i req = Rejected e)
    \<or> (res = Inl TypeError \<and> (\<exists>i req u. service i req = RejectedNullish u))"
  have failed: "?P (Inl err)"
    if "loop_outcome service req 10 1 tr0 (Inl err, tr1)" for req tr0 tr1 and err :: thrown
    using that
    by (cases err) (auto simp: loop_outcome_def retryable_def)
  obtain res1 tr1 where p: "primary_call service ps this taskId messages m tr = (res1, tr1)"
    by (cases "primary_call service ps this taskId messages m tr")
  note o1 = primary_call_outcome [of service ps this messages m tr taskId, unfolded p]
  have "?P (fst ?run)"
  proof (cases res1)
    case (Inl err)
    with p have "fst ?run = Inl err" by (simp add: runIteration_calls)
    with failed [OF o1 [unfolded Inl]] show ?thesis by simp
  next
    case (Inr a)
    show ?thesis
    proof (cases shouldSummarize)
      case False
      with p Inr show ?thesis by (simp add: runIteration_calls)
    next
      case True
      obtain res2 tr2 where
        s: "summary_call service ps this dates taskId messages m tr1 = (res2, tr2)"
        by (cases "summary_call service ps this dates taskId messages m tr1")
      note o2 = summary_call_outcome [of service ps this dates taskId messages m tr1, unfolded s]
      show ?thesis
      proof (cases res2)
        case (Inl err)
        with p Inr True s have "fst ?run = Inl err" by (simp add: runIteration_calls)
        with failed [OF o2 [unfolded Inl]] show ?thesis by simp
      next
        case (Inr b)
        with p \<open>res1 = Inr a\<close> True s show ?thesis by (simp add: runIteration_calls)
      qed
    qed
  qed
  moreover have "?run = (Inl err, tr2)"
    if "shouldSummarize" "primary_call service ps this taskId messages m tr = (Inr a, tr1)"
      "summary_call service ps this dates taskId messages m tr1 = (Inl err, tr2)"
    for a tr1 err tr2
    using that by (simp add: runIteration_calls)
  ultimately show ?thesis by blast
qed

text \<open>
  C7. A caller of \<^verbatim>\<open>runIteration\<close> sees either normal completion or an error that is the
  provider's Fatal cause or the error of exhaustion, and a failure of the summarisation call
  reaches the caller even when the primary call has succeeded.

  The source does not keep to the two errors: when the provider rejects with \<^verbatim>\<open>undefined\<close>
  or \<^verbatim>\<open>null\<close>, \<^verbatim>\<open>error.message\<close> in the last branch of the \<^verbatim>\<open>catch\<close> block of
  \<^verbatim>\<open>generateWithRetry\<close> raises a \<^verbatim>\<open>TypeError\<close>, and that is what the caller of
  \<^verbatim>\<open>runIteration\<close> sees: neither the provider's failure nor the error of exhaustion. Here
  the primary call is rejected with \<^verbatim>\<open>null\<close>, and, in a second run, the summarisation call
  with \<^verbatim>\<open>undefined\<close> after the primary call has succeeded.
\<close>

theorem runIteration_nullish_rejection:
  "runIteration (scripted [RejectedNullish Null] (Resolved (7::nat))) ps0 this0 (1, 2) ''t''
       [msg0] m0 False []
     = (Inl TypeError,
        [Logged LOG (Processing ''t'' ''m''), Invoked (primary_request ps0 this0 [msg0] m0)])
   \<and> runIteration (scripted [Resolved 7, RejectedNullish Undefined] (Resolved (7::nat))) ps0 this0
       (1, 2) ''t'' [msg0] m0 True []
     = (Inl TypeError,
        [Logged LOG (Processing ''t'' ''m''),
         Invoked (primary_request ps0 this0 [msg0] m0),
         Invoked (summary_request ps0 this0 (1, 2) ''t'' [msg0] m0)])"
  by (simp add: runIteration_def generateWithRetry_def retry_loop.simps attempt_body_def
        scripted_def primary_request_def summary_request_def m0_def)

subsection \<open>C8: the run 429, 500, success\<close>

text \<open>
  C8. With \<^verbatim>\<open>maxRetries\<close> = 3, let attempt 1 fail with code 429 and no retry delay to
  read, attempt 2 fail with code 500, and attempt 3 succeed. Then \<^verbatim>\<open>generateWithRetry\<close>
  waits 5000 ms after attempt 1 and 10000 ms after attempt 2, and returns the result of
  attempt 3; its events are exactly the three calls, the two warnings and the two waits.
\<close>

theorem example_429_500_success:
  assumes "service (invocations tr) (Request systemPrompt messages modelName isAgent signal)
             = Rejected e1"
    and "error_code e1 = Some 429" and "extractRetryDelay e1 = None"
    and "service (invocations tr + 1) (Request systemPrompt messages modelName isAgent signal)
             = Rejected e2"
    and "error_code e2 = Some 500"
    and "service (invocations tr + 2) (Request systemPrompt messages modelName isAgent signal)
             = Resolved r"
  shows "generateWithRetry service systemPrompt messages modelName isAgent signal 3 tr =
           (Inr r,
            tr @ [Invoked (Request systemPrompt messages modelName isAgent signal),
                  Logged WARN (QuotaExceeded (Finite 5) 1 3),
                  Slept (Finite 5000),
                  Invoked (Request systemPrompt messages modelName isAgent signal),
                  Logged WARN (ServerError 500 10 2 3),
                  Slept (Finite 10000),
                  Invoked (Request systemPrompt messages modelName isAgent signal)])"
proof -
  let ?req = "Request systemPrompt messages modelName isAgent signal"
  let ?tr1 = "tr @ [Invoked ?req, Logged WARN (QuotaExceeded (Finite 5) 1 3), Slept (Finite 5000)]"
  let ?tr2 = "?tr1 @ [Invoked ?req, Logged WARN (ServerError 500 10 2 3), Slept (Finite 10000)]"
  have b1: "attempt_body service ?req 3 1 5000 tr = Inl (10000, ?tr1)"
    using assms(1,2,3) by (simp add: attempt_body_def retry_seconds_def sleep_def times_1000_def
          double_of_int_def double_of_nat_def)
  have b2: "attempt_body service ?req 3 2 10000 ?tr1 = Inl (20000, ?tr2)"
    using assms(4,5) by (simp add: attempt_body_def sleep_def)
  have b3: "attempt_body service ?req 3 3 20000 ?tr2 = Inr (Inr r, ?tr2 @ [Invoked ?req])"
    using assms(6) by (simp add: attempt_body_def)
  have "retry_loop service ?req 3 1 5000 tr = retry_loop service ?req 3 (1 + 1) 10000 ?tr1"
    by (rule retry_loop_continue [OF _ b1]) simp
  also have "\<dots> = retry_loop service ?req 3 (2 + 1) 20000 ?tr2"
    using retry_loop_continue [OF _ b2] by simp
  also have "\<dots> = (Inr r, ?tr2 @ [Invoked ?req])"
    using retry_loop_leave [OF _ b3] by simp
  finally show ?thesis by (simp add: generateWithRetry_def)
qed

theorem example_429_500_success_witness:
  "generateWithRetry (scripted [Rejected e429, Rejected e500] (Resolved (7::nat)))
       ''p'' [] ''m'' True 0 3 [] =
     (Inr 7,
      [] @ [Invoked (Request ''p'' [] ''m'' True 0),
            Logged WARN (QuotaExceeded (Finite 5) 1 3),
            Slept (Finite 5000),
            Invoked (Request ''p'' [] ''m'' True 0),
            Logged WARN (ServerError 500 10 2 3),
            Slept (Finite 10000),
            Invoked (Request ''p'' [] ''m'' True 0)])"
  by (rule example_429_500_success [where ?e1.0 = e429 and ?e2.0 = e500])
     (simp_all add: scripted_def e429_def e500_def error_code_def extractRetryDelay_def)

subsection \<open>C9: the wait before the error of exhaustion\<close>

text \<open>
  C9, as amended. Let \<^verbatim>\<open>maxRetries\<close> be at least 1. If each of the first \<^verbatim>\<open>maxRetries\<close>
  invocations of the provider is rejected with a retryable failure, then
  \<^verbatim>\<open>generateWithRetry\<close> waits exactly \<^verbatim>\<open>maxRetries\<close> times, once after each failed attempt,
  before it throws its error of exhaustion: the last event before the throw is the wait
  that follows the last failed attempt. That wait is the full backoff delay,
  \<open>min (5000 * 2 ^ (maxRetries - 1)) 60000\<close> milliseconds and so at least 5000, when the last
  failure is Transient, or is RateLimited and has no retry delay that the method uses
  (absent, empty, no integer to read, or 0). When the last failure is RateLimited with a
  well-formed retry delay whose value is not 0, the wait is that retry delay instead:
  1000 times the number that \<^verbatim>\<open>parseInt\<close> reads, which is the value of the digits when
  1000 times it is below \<open>2 ^ 53\<close>.
\<close>

theorem generateWithRetry_waits_before_exhaustion:
  assumes "1 \<le> maxRetries"
    and "\<forall>i<nat maxRetries.
           rejects_retryably service (Request systemPrompt messages modelName isAgent signal)
             (invocations tr + i)"
  shows "\<exists>tr' e ms.
         generateWithRetry service systemPrompt messages modelName isAgent signal maxRetries tr
           = (Inl (Error ''Max retries reached for LLM call''), tr @ tr')
       \<and> kinds tr' = concat (replicate (nat maxRetries) [Call, Note, Wait])
       \<and> length (waits tr') = nat maxRetries
       \<and> service (invocations tr + (nat maxRetries - 1))
           (Request systemPrompt messages modelName isAgent signal) = Rejected e
       \<and> last tr' = Slept ms
       \<and> 5000 \<le> backoff_ms (nat maxRetries - 1)
       \<and> (classify e = Transient \<longrightarrow> ms = Finite (of_int (backoff_ms (nat maxRetries - 1))))
       \<and> (classify e = RateLimited \<longrightarrow> no_retry_delay e \<longrightarrow>
             ms = Finite (of_int (backoff_ms (nat maxRetries - 1))))
       \<and> (classify e = RateLimited \<longrightarrow>
             (\<forall>s. retry_delay_field e = Some s \<longrightarrow> well_formed_delay s \<longrightarrow>
                digits_value (butlast s) \<noteq> 0 \<longrightarrow>
                ms = times_1000 (double_of_int (int (digits_value (butlast s))))
                \<and> (1000 * digits_value (butlast s) < 2 ^ 53 \<longrightarrow>
                     ms = Finite (of_nat (1000 * digits_value (butlast s))))))"
proof -
  let ?req = "Request systemPrompt messages modelName isAgent signal"
  let ?k = "nat maxRetries - 1"
  let ?d = "backoff_ms ?k"
  have fails: "\<forall>i<?k. rejects_retryably service ?req (invocations tr + i)"
    using assms(2) by simp
  have "1 + int ?k \<le> maxRetries + 1" using assms(1) by simp
  from retry_loop_failures [OF fails this, of 5000, unfolded next_delay_backoff] obtain tr1 where
    run: "retry_loop service ?req maxRetries 1 5000 tr =
          retry_loop service ?req maxRetries (1 + int ?k) ?d (tr @ tr1)"
    and k1: "kinds tr1 = concat (replicate ?k [Call, Note, Wait])"
    and r1: "requests tr1 = replicate ?k ?req"
    by blast
  have n1: "invocations (tr @ tr1) = invocations tr + ?k"
    using r1 by (simp add: invocations_requests)
  have "?k < nat maxRetries" using assms(1) by simp
  with assms(2) have "rejects_retryably service ?req (invocations tr + ?k)"
    by blast
  then obtain e where e: "service (invocations (tr @ tr1)) ?req = Rejected e" "retryable e"
    using n1 by (auto simp: rejects_retryably_def split: outcome.splits)
  have "\<exists>l. attempt_body service ?req maxRetries (1 + int ?k) ?d (tr @ tr1) =
       Inl (next_delay ?d, (tr @ tr1) @ [Invoked ?req, Logged WARN l, Slept (wait_ms e ?d)])"
    using e by (rule body_retryable)
  then obtain l where
    body: "attempt_body service ?req maxRetries (1 + int ?k) ?d (tr @ tr1) =
       Inl (next_delay ?d, (tr @ tr1) @ [Invoked ?req, Logged WARN l, Slept (wait_ms e ?d)])"
    by blast
  let ?last = "[Invoked ?req, Logged WARN l, Slept (wait_ms e ?d)]"
  have le: "1 + int ?k \<le> maxRetries" using assms(1) by simp
  have "retry_loop service ?req maxRetries (1 + int ?k) ?d (tr @ tr1) =
        retry_loop service ?req maxRetries (1 + int ?k + 1) (next_delay ?d) ((tr @ tr1) @ ?last)"
    by (rule retry_loop_continue [OF le body])
  also have "\<dots> = (Inl (Error ''Max retries reached for LLM call''), (tr @ tr1) @ ?last)"
    by (rule retry_loop_exhausted) (use assms(1) in simp)
  finally have res: "retry_loop service ?req maxRetries 1 5000 tr =
      (Inl (Error ''Max retries reached for LLM call''), tr @ (tr1 @ ?last))"
    using run by simp
  have "concat (replicate ?k [Call, Note, Wait]) @ [Call, Note, Wait] =
        concat (replicate (Suc ?k) [Call, Note, Wait])"
    by (rule concat_replicate_snoc)
  then have kinds: "kinds (tr1 @ ?last) = concat (replicate (nat maxRetries) [Call, Note, Wait])"
    using k1 assms(1) by simp
  then have "kinds (tr1 @ ?last) = concat (replicate (nat maxRetries) [Call, Note, Wait]) @ []"
    by simp
  then have "length (waits (tr1 @ ?last)) = nat maxRetries"
    by (rule waits_of_rounds) simp
  moreover have "service (invocations tr + ?k) ?req = Rejected e"
    using e(1) n1 by simp
  moreover have "last (tr1 @ ?last) = Slept (wait_ms e ?d)" by simp
  moreover have "5000 \<le> ?d" by (simp add: backoff_ms_bounds)
  moreover have "classify e = Transient \<longrightarrow> wait_ms e ?d = Finite (of_int ?d)"
    by (simp add: wait_ms_transient)
  moreover have "classify e = RateLimited \<longrightarrow> no_retry_delay e \<longrightarrow>
      wait_ms e ?d = Finite (of_int ?d)"
    by (simp add: wait_ms_fallback)
  moreover have "classify e = RateLimited \<longrightarrow>
      (\<forall>s. retry_delay_field e = Some s \<longrightarrow> well_formed_delay s \<longrightarrow>
         digits_value (butlast s) \<noteq> 0 \<longrightarrow>
         wait_ms e ?d = times_1000 (double_of_int (int (digits_value (butlast s))))
         \<and> (1000 * digits_value (butlast s) < 2 ^ 53 \<longrightarrow>
              wait_ms e ?d = Finite (of_nat (1000 * digits_value (butlast s)))))"
  proof (intro impI allI conjI)
    fix s
    assume given: "classify e = RateLimited" "retry_delay_field e = Some s"
      "well_formed_delay s" "digits_value (butlast s) \<noteq> 0"
    then show "wait_ms e ?d = times_1000 (double_of_int (int (digits_value (butlast s))))"
      by (rule wait_ms_parsed)
    assume "1000 * digits_value (butlast s) < 2 ^ 53"
    with given show "wait_ms e ?d = Finite (of_nat (1000 * digits_value (butlast s)))"
      by (rule wait_ms_well_formed)
  qed
  ultimately show ?thesis
    using res kinds unfolding generateWithRetry_def by blast
qed

theorem generateWithRetry_waits_before_exhaustion_witness:
  "\<exists>tr'. generateWithRetry (scripted [Rejected e500, Rejected e429] (Resolved (7::nat)))
            ''p'' [] ''m'' True 0 2 []
           = (Inl (Error ''Max retries reached for LLM call''), tr')
       \<and> kinds tr' = [Call, Note, Wait, Call, Note, Wait]
       \<and> length (waits tr') = 2
       \<and> last tr' = Slept (Finite 10000)"
proof -
  let ?service = "scripted [Rejected e500, Rejected e429] (Resolved (7::nat))"
  let ?req = "Request ''p'' [] ''m'' True 0"
  have fails: "\<forall>i<nat 2. rejects_retryably ?service ?req (invocations [] + i)"
    by (simp add: scripted_def rejects_retryably_def retryable_def classify_def error_code_def
          e429_def e500_def less_2_cases_iff)
  from generateWithRetry_waits_before_exhaustion [of 2 ?service "''p''" "[]" "''m''" True 0 "[]",
    OF _ fails]
  obtain tr' e ms where
    run: "generateWithRetry ?service ''p'' [] ''m'' True 0 2 []
           = (Inl (Error ''Max retries reached for LLM call''), [] @ tr')"
    and shape: "kinds tr' = concat (replicate (nat 2) [Call, Note, Wait])"
      "length (waits tr') = nat 2"
    and e: "?service (invocations [] + (nat 2 - 1)) ?req = Rejected e"
    and last: "last tr' = Slept ms"
    and limited: "classify e = RateLimited \<longrightarrow> no_retry_delay e \<longrightarrow>
             ms = Finite (of_int (backoff_ms (nat 2 - 1)))"
    by auto
  from e have "e = e429" by (simp add: scripted_def)
  moreover have "classify e429 = RateLimited"
    by (simp add: classify_def error_code_def e429_def)
  moreover have "no_retry_delay e429"
    by (simp add: no_retry_delay_def retry_delay_field_def e429_def)
  moreover have "backoff_ms (nat 2 - 1) = 10000" by (simp add: backoff_ms_def)
  ultimately have "ms = Finite 10000" using limited by simp
  with run shape last show ?thesis
    by (simp add: numeral_2_eq_2)
qed

text \<open>
  C9 as stated fails where the last failure brings its own retry delay: with
  \<^verbatim>\<open>maxRetries\<close> = 1 and a failure with code 429 and the retry delay \<^verbatim>\<open>1s\<close>, the wait
  before the error of exhaustion is 1000 milliseconds, not the full backoff delay of 5000
  milliseconds. With the retry delay \<^verbatim>\<open>-3s\<close>, in which \<^verbatim>\<open>parseInt\<close> reads -3, the timer is
  set to -3000 milliseconds, which have passed at once.
\<close>

theorem generateWithRetry_waits_before_exhaustion_counterexample:
  "generateWithRetry (scripted [Rejected (e429_retry ''1s'')] (Resolved (7::nat)))
       ''p'' [] ''m'' True 0 1 []
     = (Inl (Error ''Max retries reached for LLM call''),
        [Invoked (Request ''p'' [] ''m'' True 0),
         Logged WARN (QuotaExceeded (Finite 1) 1 1),
         Slept (Finite 1000)])
   \<and> well_formed_delay ''1s''
   \<and> backoff_ms 0 = 5000
   \<and> generateWithRetry (scripted [Rejected (e429_retry ''-3s'')] (Resolved (7::nat)))
       ''p'' [] ''m'' True 0 1 []
     = (Inl (Error ''Max retries reached for LLM call''),
        [Invoked (Request ''p'' [] ''m'' True 0),
         Logged WARN (QuotaExceeded (Finite (- 3)) 1 1),
         Slept (Finite (- 3000))])"
  by (simp add: generateWithRetry_def retry_loop.simps attempt_body_def scripted_def
        e429_retry_def error_code_def retry_seconds_def extractRetryDelay_def RetryInfo_type_def
        parseInt10_def isWhiteSpace_def isDigit_def digits_value_def sleep_def times_1000_def
        double_of_int_def double_of_nat_def well_formed_delay_def backoff_ms_def)

subsection \<open>C10: one abort controller for the instance\<close>

text \<open>
  C10. The constructor stores the one \<^verbatim>\<open>AbortController\<close> created for the instance in its
  field, and no method assigns the field: \<^verbatim>\<open>runIteration\<close> reads the instance and returns
  only its result and its events. In any sequence of \<^verbatim>\<open>runIteration\<close> calls on one instance,
  every invocation of the provider, from the primary and from the summarisation call of
  every iteration, carries the signal of that one controller. Hence, in every history of
  aborts in which an abort is never undone (the set of aborted controllers at the time of
  the \<open>i\<close>-th invocation grows with \<open>i\<close>), once an invocation of the instance sees its signal
  aborted, every later invocation of the instance sees it aborted as well.
\<close>

theorem shared_abort_controller:
  "abortController (new_AgentProcessor fresh) = fresh
   \<and> (\<exists>tr'. runIterations service ps this xs tr = tr @ tr'
        \<and> (\<forall>req\<in>set (requests tr'). signal_of req = abortController this)
        \<and> (\<forall>aborted i j. mono aborted \<longrightarrow> i \<le> j \<longrightarrow> j < length (requests tr') \<longrightarrow>
              signal_of (requests tr' ! i) \<in> aborted i \<longrightarrow>
              signal_of (requests tr' ! j) \<in> (aborted j :: nat set)))"
proof -
  from runIterations_signal [of service ps this xs tr] obtain tr' where
    run: "runIterations service ps this xs tr = tr @ tr'"
    and same: "\<forall>req\<in>set (requests tr'). signal_of req = abortController this"
    by blast
  have "signal_of (requests tr' ! j) \<in> aborted j"
    if "mono aborted" "i \<le> j" "j < length (requests tr')"
      "signal_of (requests tr' ! i) \<in> aborted i"
    for aborted :: "nat \<Rightarrow> nat set" and i j
  proof -
    from that(2,3) same have "signal_of (requests tr' ! i) = abortController this"
      "signal_of (requests tr' ! j) = abortController this"
      by simp_all
    moreover from that(1,2) have "aborted i \<subseteq> aborted j" by (rule monoD)
    ultimately show ?thesis using that(4) by auto
  qed
  with run same show ?thesis by (simp add: new_AgentProcessor_def)
qed

theorem shared_abort_controller_witness:
  "map signal_of (requests (runIterations (scripted [] (Resolved (7::nat))) ps0 this0 [it1, it2] []))
     = [5, 5, 5]
   \<and> signal_of (requests (runIterations (scripted [] (Resolved (7::nat))) ps0 this0 [it1, it2] [])
        ! 2) \<in> aborted_from 1 5 2"
proof -
  let ?service = "scripted [] (Resolved (7::nat))"
  let ?run = "runIterations ?service ps0 this0 [it1, it2] []"
  have reqs: "requests ?run =
      [primary_request ps0 this0 [msg0] m0,
       summary_request ps0 this0 (1, 2) ''t'' [msg0] m0,
       primary_request ps0 this0 [] m0]"
    by (simp add: runIteration_def generateWithRetry_def retry_loop.simps attempt_body_def
          scripted_def it1_def it2_def primary_request_def summary_request_def)
  from shared_abort_controller [of 5 ?service ps0 this0 "[it1, it2]" "[]"]
  obtain tr' where
    run: "?run = [] @ tr'"
    and later: "\<forall>aborted i j. mono aborted \<longrightarrow> i \<le> j \<longrightarrow> j < length (requests tr') \<longrightarrow>
              signal_of (requests tr' ! i) \<in> aborted i \<longrightarrow>
              signal_of (requests tr' ! j) \<in> (aborted j :: nat set)"
    by (elim exE conjE)
  from run have tr': "tr' = ?run" by simp
  have mono: "mono (aborted_from 1 5)"
    by (auto simp: mono_def aborted_from_def le_fun_def)
  have sig: "map signal_of (requests ?run) = [5, 5, 5]"
    unfolding reqs
    by (simp add: primary_request_def summary_request_def this0_def new_AgentProcessor_def)
  have first: "signal_of (requests ?run ! 1) \<in> aborted_from 1 5 1"
    unfolding reqs
    by (simp add: summary_request_def this0_def new_AgentProcessor_def aborted_from_def)
  have len: "2 < length (requests ?run)" unfolding reqs by simp
  have "signal_of (requests ?run ! 2) \<in> aborted_from 1 5 2"
    using later [unfolded tr', rule_format, of "aborted_from 1 5" 1 2, OF mono _ len first]
    by simp
  with sig show ?thesis by simp
qed

end
